theory Spec2Isabelle
  imports Main "HOL-Library.List_Lexorder" "HOL-Library.Char_ord"
begin

section \<open>JavaScript values used by the program\<close>

text \<open>
  The program is \<^verbatim>\<open>src/index.js\<close>. A field of a CSV line, a summary, a description, a
  location and an id is a string or \<^verbatim>\<open>undefined\<close>: a \<open>string option\<close>, \<open>None\<close> being
  \<^verbatim>\<open>undefined\<close>. The \<^verbatim>\<open>date\<close> and \<^verbatim>\<open>dateTime\<close> properties of a start or an end can also
  be \<^verbatim>\<open>null\<close> (what moment's \<^verbatim>\<open>toISOString()\<close> returns for an invalid moment), so they
  are a \<open>jsval\<close>; \<open>Undefined\<close> stands for an absent property. A \<open>string\<close> is the
  UTF-8 encoding of the JavaScript string, one \<open>char\<close> a byte; every string the program
  reads from the CSV file (decoded as \<^verbatim>\<open>utf8\<close>) or builds from such strings has one, and
  two JavaScript strings are \<^verbatim>\<open>===\<close> iff their encodings are equal.
\<close>

datatype jsval = Undefined | Null | Str string

text \<open>What \<^verbatim>\<open>a && b\<close> tests of a value: \<^verbatim>\<open>undefined\<close>, \<^verbatim>\<open>null\<close> and \<^verbatim>\<open>''\<close> are falsy.\<close>

fun truthy :: "jsval \<Rightarrow> bool" where
  "truthy (Str s) = (s \<noteq> [])"
| "truthy Undefined = False"
| "truthy Null = False"

text \<open>String conversion of a string or \<^verbatim>\<open>undefined\<close>, as \<^verbatim>\<open>+\<close> and a template literal do it.\<close>

fun toStr :: "string option \<Rightarrow> string" where
  "toStr None = ''undefined''"
| "toStr (Some s) = s"

text \<open>
  The UTF-16 code units of a JavaScript string, from its UTF-8 encoding. A code point
  below \<open>0x10000\<close> is one code unit, a code point from \<open>0x10000\<close> on is a pair of
  surrogates.
\<close>

definition units :: "nat \<Rightarrow> nat list" where
  "units cp =
     (if cp < 65536 then [cp]
      else [55296 + (cp - 65536) div 1024, 56320 + (cp - 65536) mod 1024])"

text \<open>
  The decoder reads the bytes from the left: \<open>need\<close> is the number of continuation
  bytes the code point in progress still lacks, \<open>acc\<close> the bits read of it.
\<close>

fun decode :: "nat \<Rightarrow> nat \<Rightarrow> string \<Rightarrow> nat list" where
  "decode need acc [] = []"
| "decode need acc (c # cs) =
     (if need = 0 then
        (if (of_char c :: nat) < 128 then of_char c # decode 0 0 cs
         else if (of_char c :: nat) < 224 then decode 1 (of_char c mod 32) cs
         else if (of_char c :: nat) < 240 then decode 2 (of_char c mod 16) cs
         else decode 3 (of_char c mod 8) cs)
      else if need = 1 then units (acc * 64 + of_char c mod 64) @ decode 0 0 cs
      else decode (need - 1) (acc * 64 + of_char c mod 64) cs)"

definition utf16 :: "string \<Rightarrow> nat list" where
  "utf16 s = decode 0 0 s"

text \<open>
  \<^verbatim>\<open>a > b\<close> on two values that are strings or \<^verbatim>\<open>undefined\<close>: two strings are compared
  lexicographically by UTF-16 code unit (a proper prefix is the smaller string); with
  \<^verbatim>\<open>undefined\<close> on a side the comparison is numeric, \<^verbatim>\<open>undefined\<close> is NaN and the result is
  \<^verbatim>\<open>false\<close>.
\<close>

fun jsGt :: "string option \<Rightarrow> string option \<Rightarrow> bool" where
  "jsGt (Some a) (Some b) = (utf16 b < utf16 a)"
| "jsGt _ _ = False"

definition tab :: string where
  "tab = [CHR 0x09]"

definition nl :: string where
  "nl = [CHR 0x0A]"

definition digitChar :: "nat \<Rightarrow> char" where
  "digitChar n = ''0123456789'' ! n"

text \<open>The decimal numeral of a count, as a template literal prints a number.\<close>

fun showNat :: "nat \<Rightarrow> string" where
  "showNat n = (if n < 10 then [digitChar n] else showNat (n div 10) @ [digitChar (n mod 10)])"

section \<open>Events\<close>

text \<open>
  A start or an end, as the calendar API has it and as the normalizer builds it: an object
  with a \<^verbatim>\<open>date\<close> property (all-day) or a \<^verbatim>\<open>dateTime\<close> property (timed).
\<close>

record eventDateTime =
  date :: jsval
  dateTime :: jsval

record event =
  start :: eventDateTime
  end' :: eventDateTime
  location :: "string option"
  summary :: "string option"
  description :: "string option"
  id' :: "string option"

section \<open>The host: Date and moment\<close>

text \<open>
  \<^verbatim>\<open>Date\<close> (of the JavaScript engine) and \<^verbatim>\<open>moment\<close> (an npm package) are not code of this
  repository; the program is modelled over any host. \<open>Date_getTime h s\<close> is
  \<^verbatim>\<open>new Date(s).getTime()\<close> for a string \<open>s\<close>, \<open>None\<close> being NaN (an invalid date). The
  other three act on the time value of a valid moment: \<^verbatim>\<open>format("YYYY-MM-DD")\<close>,
  \<^verbatim>\<open>add(1, 'd')\<close> and \<^verbatim>\<open>toISOString()\<close>.
\<close>

record host =
  Date_getTime :: "string \<Rightarrow> int option"
  moment_format :: "int \<Rightarrow> string"
  moment_add_day :: "int \<Rightarrow> int"
  moment_toISOString :: "int \<Rightarrow> string"

text \<open>
  \<^verbatim>\<open>new Date(v).getTime()\<close> for a property value: \<^verbatim>\<open>new Date(undefined)\<close> is invalid,
  \<^verbatim>\<open>new Date(null)\<close> is the epoch.
\<close>

fun newDate :: "host \<Rightarrow> jsval \<Rightarrow> int option" where
  "newDate h (Str s) = Date_getTime h s"
| "newDate h Undefined = None"
| "newDate h Null = Some 0"

text \<open>A moment is the time value it wraps; \<open>None\<close> is an invalid moment.\<close>

definition moment :: "host \<Rightarrow> string \<Rightarrow> int option" where
  "moment h s = Date_getTime h s"

text \<open>\<^verbatim>\<open>a.isSameOrAfter(b)\<close>: false as soon as one of the two moments is invalid.\<close>

fun isSameOrAfter :: "int option \<Rightarrow> int option \<Rightarrow> bool" where
  "isSameOrAfter (Some a) (Some b) = (b \<le> a)"
| "isSameOrAfter _ _ = False"

text \<open>\<^verbatim>\<open>m.clone().add(1, 'd')\<close>: an invalid moment stays invalid.\<close>

fun add1d :: "host \<Rightarrow> int option \<Rightarrow> int option" where
  "add1d h (Some t) = Some (moment_add_day h t)"
| "add1d h None = None"

text \<open>\<^verbatim>\<open>m.format("YYYY-MM-DD")\<close>: an invalid moment formats as \<^verbatim>\<open>Invalid date\<close>.\<close>

fun format :: "host \<Rightarrow> int option \<Rightarrow> string" where
  "format h (Some t) = moment_format h t"
| "format h None = ''Invalid date''"

text \<open>\<^verbatim>\<open>m.toISOString()\<close>: \<^verbatim>\<open>null\<close> for an invalid moment.\<close>

fun toISOString :: "host \<Rightarrow> int option \<Rightarrow> jsval" where
  "toISOString h (Some t) = Str (moment_toISOString h t)"
| "toISOString h None = Null"

section \<open>isEqualDate (lines 106-123)\<close>

text \<open>\<^verbatim>\<open>check\<close>: \<^verbatim>\<open>===\<close> on two time values; NaN is equal to nothing, itself included.\<close>

definition check :: "host \<Rightarrow> jsval \<Rightarrow> jsval \<Rightarrow> bool" where
  "check h d1 d2 =
     (case (newDate h d1, newDate h d2) of
        (Some x, Some y) \<Rightarrow> x = y
      | _ \<Rightarrow> False)"

definition isEqualDate :: "host \<Rightarrow> event \<Rightarrow> event \<Rightarrow> bool" where
  "isEqualDate h t1 t2 =
     (let isEqualStart =
            (if truthy (date (start t1)) \<and> truthy (date (start t2))
                \<and> check h (date (start t1)) (date (start t2)) then True
             else if truthy (dateTime (start t1)) \<and> truthy (dateTime (start t2))
                \<and> check h (dateTime (start t1)) (dateTime (start t2)) then True
             else False);
          isEqualEnd =
            (if truthy (date (end' t1)) \<and> truthy (date (end' t2))
                \<and> check h (date (end' t1)) (date (end' t2)) then True
             else if truthy (dateTime (end' t1)) \<and> truthy (dateTime (end' t2))
                \<and> check h (dateTime (end' t1)) (dateTime (end' t2)) then True
             else False)
      in isEqualStart \<and> isEqualEnd)"

section \<open>The two scans of the reconciliation (lines 233-242 and 257-266)\<close>

text \<open>
  The inner loop of the insert pass: \<open>isEqual\<close> is the loop's variable, assigned only
  under an equal summary; a true value leaves the loop.
\<close>

fun scanOld :: "host \<Rightarrow> event \<Rightarrow> event list \<Rightarrow> bool \<Rightarrow> bool" where
  "scanOld h event [] isEqual = isEqual"
| "scanOld h event (old # olds) isEqual =
     (if summary old = summary event then
        (if isEqualDate h old event then True
         else scanOld h event olds False)
      else scanOld h event olds isEqual)"

text \<open>The inner loop of the delete pass: the same test, over the new events.\<close>

fun scanNew :: "host \<Rightarrow> event \<Rightarrow> event list \<Rightarrow> bool \<Rightarrow> bool" where
  "scanNew h old [] isEqual = isEqual"
| "scanNew h old (event # events) isEqual =
     (if summary old = summary event then
        (if isEqualDate h old event then True
         else scanNew h old events False)
      else scanNew h old events isEqual)"

text \<open>
  The test both scans apply to a destination event \<open>old\<close> and a source event
  \<open>event\<close>: the summaries are \<^verbatim>\<open>===\<close> and \<open>isEqualDate\<close> holds.
\<close>

definition sameOccurrence :: "host \<Rightarrow> event \<Rightarrow> event \<Rightarrow> bool" where
  "sameOccurrence h old event = (summary old = summary event \<and> isEqualDate h old event)"

section \<open>The calendar and the run (lines 229-275)\<close>

text \<open>
  The calendar is the package \<^verbatim>\<open>node-google-calendar\<close>, not code of this repository:
  a state \<open>'s\<close> and two operations. Each returns the calendar after the call and whether
  the promise it returned was fulfilled (\<open>True\<close>) or rejected (\<open>False\<close>).
\<close>

record 's calendarAPI =
  Events_insert :: "event \<Rightarrow> 's \<Rightarrow> bool \<times> 's"
  Events_delete :: "string option \<Rightarrow> 's \<Rightarrow> bool \<times> 's"

datatype action = Insert event | Delete event

text \<open>
  What a run has done so far: the calendar, the strings written to standard output, and
  the calls made to the calendar, in order (a \<open>Delete old\<close> is the call
  \<^verbatim>\<open>Events.delete\<close> made for \<open>old\<close>, with \<open>id' old\<close>).
\<close>

record 's run =
  cal :: 's
  stdout :: "string list"
  calls :: "action list"

text \<open>\<^verbatim>\<open>log\<close> (lines 74-76): nothing under \<^verbatim>\<open>--quiet\<close>.\<close>

definition log :: "bool \<Rightarrow> string \<Rightarrow> 's run \<Rightarrow> 's run" where
  "log quiet str r = (if quiet then r else r\<lparr>stdout := stdout r @ [str]\<rparr>)"

text \<open>
  The insert pass (lines 231-250). The \<^verbatim>\<open>await\<close> of a rejected promise throws; nothing
  in the async function catches it, so the function ends there: \<open>Inl\<close>, with the run as
  it was when the call was rejected. \<open>Inr\<close> is the pass run to its end, with its count.
\<close>

fun insertLoop ::
  "host \<Rightarrow> 's calendarAPI \<Rightarrow> bool \<Rightarrow> event list \<Rightarrow> event list \<Rightarrow> nat \<Rightarrow> 's run
     \<Rightarrow> 's run + nat \<times> 's run" where
  "insertLoop h api quiet [] oldEvents insertedCount r = Inr (insertedCount, r)"
| "insertLoop h api quiet (event # rest) oldEvents insertedCount r =
     (if \<not> scanOld h event oldEvents False then
        (case Events_insert api event (cal r) of
           (False, c) \<Rightarrow> Inl (r\<lparr>cal := c, calls := calls r @ [Insert event]\<rparr>)
         | (True, c) \<Rightarrow>
             insertLoop h api quiet rest oldEvents (Suc insertedCount)
               (log quiet (tab @ ''Inserted: '' @ toStr (summary event) @ nl)
                  (r\<lparr>cal := c, calls := calls r @ [Insert event]\<rparr>)))
      else insertLoop h api quiet rest oldEvents insertedCount r)"

text \<open>The delete pass (lines 255-274), of the same shape.\<close>

fun deleteLoop ::
  "host \<Rightarrow> 's calendarAPI \<Rightarrow> bool \<Rightarrow> event list \<Rightarrow> event list \<Rightarrow> nat \<Rightarrow> 's run
     \<Rightarrow> 's run + nat \<times> 's run" where
  "deleteLoop h api quiet [] newEvents deletedCount r = Inr (deletedCount, r)"
| "deleteLoop h api quiet (old # rest) newEvents deletedCount r =
     (if \<not> scanNew h old newEvents False then
        (case Events_delete api (id' old) (cal r) of
           (False, c) \<Rightarrow> Inl (r\<lparr>cal := c, calls := calls r @ [Delete old]\<rparr>)
         | (True, c) \<Rightarrow>
             deleteLoop h api quiet rest newEvents (Suc deletedCount)
               (log quiet (tab @ ''Deleted: '' @ toStr (summary old) @ nl)
                  (r\<lparr>cal := c, calls := calls r @ [Delete old]\<rparr>)))
      else deleteLoop h api quiet rest newEvents deletedCount r)"

text \<open>
  Lines 229-275 of the main function, from the two event lists on: \<open>Inl\<close> when a call
  was rejected (the function ended there), \<open>Inr\<close> when it ran to its last line.
\<close>

definition reconcile ::
  "host \<Rightarrow> 's calendarAPI \<Rightarrow> bool \<Rightarrow> event list \<Rightarrow> event list \<Rightarrow> 's run \<Rightarrow> 's run + 's run" where
  "reconcile h api quiet newEvents oldEvents r =
     (case insertLoop h api quiet newEvents oldEvents 0
             (log quiet (''>>>> Inserting new events...'' @ nl) r) of
        Inl r' \<Rightarrow> Inl r'
      | Inr (insertedCount, r1) \<Rightarrow>
          (case deleteLoop h api quiet oldEvents newEvents 0
                  (log quiet (''>>>> Deleting removed events...'' @ nl)
                     (log quiet (''>>>> Inserted '' @ showNat insertedCount @ '' events.'' @ nl) r1)) of
             Inl r' \<Rightarrow> Inl r'
           | Inr (deletedCount, r2) \<Rightarrow>
               Inr (log quiet (''>>>> Deleted '' @ showNat deletedCount @ '' events.'' @ nl) r2)))"

section \<open>Normalization of a CSV line (lines 164-215)\<close>

text \<open>\<^verbatim>\<open>line[i]\<close>: \<^verbatim>\<open>undefined\<close> beyond the end of the array.\<close>

definition lineAt :: "string list \<Rightarrow> nat \<Rightarrow> string option" where
  "lineAt line i = (if i < length line then Some (line ! i) else None)"

text \<open>
  Lines 173-186, on \<open>(startDate, startTime, endDate, endTime)\<close>: the end-of-day default
  on a same-day line, the swap on a reversed one.
\<close>

fun adjust ::
  "string option \<times> string option \<times> string option \<times> string option
     \<Rightarrow> string option \<times> string option \<times> string option \<times> string option" where
  "adjust (startDate, startTime, endDate, endTime) =
     (if startDate = endDate then
        (if startTime \<noteq> Some [] \<and> endTime = Some [] then
           (startDate, startTime, endDate, Some ''23:59:59'')
         else (startDate, startTime, endDate, endTime))
      else if jsGt startDate endDate then (endDate, endTime, startDate, startTime)
      else (startDate, startTime, endDate, endTime))"

text \<open>Lines 191-194: the title, behind the category in brackets when there is one.\<close>

definition summaryOf :: "string list \<Rightarrow> string" where
  "summaryOf line =
     (if lineAt line 4 \<noteq> Some [] then ''['' @ toStr (lineAt line 4) @ ''] '' @ toStr (lineAt line 5)
      else toStr (lineAt line 5))"

text \<open>
  The body of the \<^verbatim>\<open>try\<close> block. \<open>Inl\<close> would be an exception thrown in it (the string
  the \<^verbatim>\<open>catch\<close> logs); \<open>Inr\<close> is the event pushed. No statement of the block throws: an
  array read out of range is \<^verbatim>\<open>undefined\<close>, \<^verbatim>\<open>new Date\<close> of an unparseable string is an
  invalid date, and moment formats an invalid moment as \<^verbatim>\<open>Invalid date\<close> or \<^verbatim>\<open>null\<close>. The
  event has no \<^verbatim>\<open>id\<close>.
\<close>

definition normalizeLine :: "host \<Rightarrow> string list \<Rightarrow> string + event" where
  "normalizeLine h line =
     (case adjust (lineAt line 0, lineAt line 1, lineAt line 2, lineAt line 3) of
        (startDate, startTime, endDate, endTime) \<Rightarrow>
          (let startMoment = moment h (toStr startDate @ '' '' @ toStr startTime);
               endMoment = moment h (toStr endDate @ '' '' @ toStr endTime)
           in if startTime = Some [] \<and> endTime = Some [] then
                (let endMoment' =
                       (if isSameOrAfter startMoment endMoment then add1d h startMoment
                        else endMoment)
                 in Inr \<lparr>start = \<lparr>date = Str (format h startMoment), dateTime = Undefined\<rparr>,
                         end' = \<lparr>date = Str (format h endMoment'), dateTime = Undefined\<rparr>,
                         location = lineAt line 8,
                         summary = Some (summaryOf line),
                         description = lineAt line 6,
                         id' = None\<rparr>)
              else
                Inr \<lparr>start = \<lparr>date = Undefined, dateTime = toISOString h startMoment\<rparr>,
                      end' = \<lparr>date = Undefined, dateTime = toISOString h endMoment\<rparr>,
                      location = lineAt line 8,
                      summary = Some (summaryOf line),
                      description = lineAt line 6,
                      id' = None\<rparr>))"

text \<open>
  The \<^verbatim>\<open>forEach\<close> over the parsed CSV, from index \<open>i\<close> on: line 0 is skipped, an event is
  pushed for a line whose block ends, an exception is logged and the line dropped.
\<close>

fun forEachLine ::
  "host \<Rightarrow> bool \<Rightarrow> nat \<Rightarrow> string list list \<Rightarrow> event list \<times> string list
     \<Rightarrow> event list \<times> string list" where
  "forEachLine h quiet i [] acc = acc"
| "forEachLine h quiet i (line # rest) (newEvents, out) =
     (if i = 0 then forEachLine h quiet (Suc i) rest (newEvents, out)
      else
        (case normalizeLine h line of
           Inr ev \<Rightarrow> forEachLine h quiet (Suc i) rest (newEvents @ [ev], out)
         | Inl e \<Rightarrow>
             forEachLine h quiet (Suc i) rest
               (newEvents, if quiet then out else out @ [e @ nl])))"

text \<open>Lines 162-215: the events of a parsed CSV, and what the loop wrote.\<close>

definition parseLines :: "host \<Rightarrow> bool \<Rightarrow> string list list \<Rightarrow> event list \<times> string list" where
  "parseLines h quiet csv = forEachLine h quiet 0 csv ([], [])"

section \<open>A reference host\<close>

text \<open>
  One host, for running the program on concrete lines: a JavaScript engine in a time zone
  at a fixed offset of \<open>off\<close> minutes east of UTC, with no daylight saving. It is written
  from the documented behaviour of \<^verbatim>\<open>Date\<close> in V8 and of moment, and reads these forms
  only (every other string is an invalid date here):
  \<^item> \<^verbatim>\<open>YYYY-MM-DD\<close>, the ISO date: midnight UTC;
  \<^item> \<^verbatim>\<open>YYYY-MM-DDTHH:mm:ss.sssZ\<close>, what \<^verbatim>\<open>toISOString\<close> prints: that instant;
  \<^item> \<^verbatim>\<open>YYYY-MM-DD\<close> or \<^verbatim>\<open>YYYY/M/D\<close>, a space, then nothing, \<^verbatim>\<open>H:mm\<close> or \<^verbatim>\<open>H:mm:ss\<close>: that
    local time (the engine's fallback parser; a day up to 31 rolls into the next month).
\<close>

definition isDigit :: "char \<Rightarrow> bool" where
  "isDigit c = (CHR ''0'' \<le> c \<and> c \<le> CHR ''9'')"

definition readNat :: "string \<Rightarrow> nat option" where
  "readNat s =
     (if s \<noteq> [] \<and> list_all isDigit s
      then Some (foldl (\<lambda>n c. 10 * n + (of_char c - 48)) 0 s) else None)"

fun splitOn :: "char \<Rightarrow> string \<Rightarrow> string list" where
  "splitOn c [] = [[]]"
| "splitOn c (x # xs) =
     (if x = c then [] # splitOn c xs
      else (case splitOn c xs of
              w # ws \<Rightarrow> (x # w) # ws
            | [] \<Rightarrow> [[x]]))"

text \<open>Days from 1970-01-01 to a day of the proleptic Gregorian calendar, and back.\<close>

definition daysFromCivil :: "int \<Rightarrow> int \<Rightarrow> int \<Rightarrow> int" where
  "daysFromCivil y m d =
     (let y' = (if m \<le> 2 then y - 1 else y);
          era = y' div 400;
          yoe = y' - era * 400;
          doy = (153 * (if 2 < m then m - 3 else m + 9) + 2) div 5 + d - 1;
          doe = yoe * 365 + yoe div 4 - yoe div 100 + doy
      in era * 146097 + doe - 719468)"

definition civilFromDays :: "int \<Rightarrow> int \<times> int \<times> int" where
  "civilFromDays z0 =
     (let z = z0 + 719468;
          era = z div 146097;
          doe = z - era * 146097;
          yoe = (doe - doe div 1460 + doe div 36524 - doe div 146096) div 365;
          doy = doe - (365 * yoe + yoe div 4 - yoe div 100);
          mp = (5 * doy + 2) div 153;
          d = doy - (153 * mp + 2) div 5 + 1;
          m = (if mp < 10 then mp + 3 else mp - 9);
          y = yoe + era * 400
      in (if m \<le> 2 then y + 1 else y, m, d))"

text \<open>A date \<open>y sep m sep d\<close> as a day number; \<open>strict\<close> asks for the ISO widths 4-2-2.\<close>

definition readDate :: "bool \<Rightarrow> char \<Rightarrow> string \<Rightarrow> int option" where
  "readDate strict sep s =
     (case splitOn sep s of
        [ys, ms, ds] \<Rightarrow>
          (case (readNat ys, readNat ms, readNat ds) of
             (Some y, Some m, Some d) \<Rightarrow>
               (if length ys = 4 \<and> length ms \<le> 2 \<and> length ds \<le> 2
                   \<and> (if strict then length ms = 2 \<and> length ds = 2 else True)
                   \<and> 1 \<le> m \<and> m \<le> 12 \<and> 1 \<le> d \<and> d \<le> 31
                then Some (daysFromCivil (int y) (int m) (int d)) else None)
           | _ \<Rightarrow> None)
      | _ \<Rightarrow> None)"

text \<open>A time of day \<open>H:mm\<close> or \<open>H:mm:ss\<close>, in milliseconds.\<close>

definition readTime :: "string \<Rightarrow> int option" where
  "readTime s =
     (case splitOn CHR '':'' s of
        [hs, ms] \<Rightarrow>
          (case (readNat hs, readNat ms) of
             (Some hh, Some mm) \<Rightarrow>
               (if length hs \<le> 2 \<and> length ms = 2 \<and> hh < 24 \<and> mm < 60
                then Some ((int hh * 60 + int mm) * 60000) else None)
           | _ \<Rightarrow> None)
      | [hs, ms, ss] \<Rightarrow>
          (case (readNat hs, readNat ms, readNat ss) of
             (Some hh, Some mm, Some sec) \<Rightarrow>
               (if length hs \<le> 2 \<and> length ms = 2 \<and> length ss = 2
                   \<and> hh < 24 \<and> mm < 60 \<and> sec < 60
                then Some (((int hh * 60 + int mm) * 60 + int sec) * 1000) else None)
           | _ \<Rightarrow> None)
      | _ \<Rightarrow> None)"

text \<open>The part of an ISO instant behind the \<open>T\<close>: \<open>HH:mm:ss.sssZ\<close>, in milliseconds.\<close>

definition readIsoTime :: "string \<Rightarrow> int option" where
  "readIsoTime s =
     (if length s = 13 \<and> last s = CHR ''Z'' \<and> s ! 8 = CHR ''.'' \<and> s ! 1 \<noteq> CHR '':'' then
        (case (readTime (take 8 s), readNat (take 3 (drop 9 s))) of
           (Some t, Some f) \<Rightarrow> Some (t + int f)
         | _ \<Rightarrow> None)
      else None)"

definition parseDate :: "int \<Rightarrow> string \<Rightarrow> int option" where
  "parseDate off s =
     (case splitOn CHR ''T'' s of
        [d, t] \<Rightarrow>
          (case (readDate True CHR ''-'' d, readIsoTime t) of
             (Some days, Some ms) \<Rightarrow> Some (days * 86400000 + ms)
           | _ \<Rightarrow> None)
      | [_] \<Rightarrow>
          (case splitOn CHR '' '' s of
             [d] \<Rightarrow>
               (case readDate True CHR ''-'' d of
                  Some days \<Rightarrow> Some (days * 86400000)
                | None \<Rightarrow> None)
           | [d, t] \<Rightarrow>
               (case (if CHR ''/'' \<in> set d then readDate False CHR ''/'' d
                      else readDate True CHR ''-'' d,
                      if t = [] then Some 0 else readTime t) of
                  (Some days, Some ms) \<Rightarrow> Some (days * 86400000 + ms - off * 60000)
                | _ \<Rightarrow> None)
           | _ \<Rightarrow> None)
      | _ \<Rightarrow> None)"

text \<open>The last \<open>w\<close> decimal digits of a number, zeros in front.\<close>

fun pad :: "nat \<Rightarrow> int \<Rightarrow> string" where
  "pad 0 n = []"
| "pad (Suc w) n = pad w (n div 10) @ [digitChar (nat (n mod 10))]"

definition formatYMD :: "int \<Rightarrow> string" where
  "formatYMD days =
     (case civilFromDays days of
        (y, m, d) \<Rightarrow> pad 4 y @ ''-'' @ pad 2 m @ ''-'' @ pad 2 d)"

definition isoString :: "int \<Rightarrow> string" where
  "isoString t =
     (let ms = t mod 86400000
      in formatYMD (t div 86400000) @ ''T'' @ pad 2 (ms div 3600000) @ '':''
           @ pad 2 (ms div 60000 mod 60) @ '':'' @ pad 2 (ms div 1000 mod 60) @ ''.''
           @ pad 3 (ms mod 1000) @ ''Z'')"

definition jsHost :: "int \<Rightarrow> host" where
  "jsHost off =
     \<lparr>Date_getTime = parseDate off,
      moment_format = (\<lambda>t. formatYMD ((t + off * 60000) div 86400000)),
      moment_add_day = (\<lambda>t. t + 86400000),
      moment_toISOString = isoString\<rparr>"

section \<open>The notions of the specification\<close>

text \<open>
  The specification's data model: a start or an end is either a date-only value or an
  exact instant. In the program's objects a date-only value is a non-empty \<^verbatim>\<open>date\<close>
  string beside no \<^verbatim>\<open>dateTime\<close>, an instant a non-empty \<^verbatim>\<open>dateTime\<close> string beside no
  \<^verbatim>\<open>date\<close>; an object with both, or with neither, is no value of the data model.
\<close>

datatype timeValue = DateOnly string | Instant string

fun nonEmpty :: "jsval \<Rightarrow> string option" where
  "nonEmpty (Str s) = (if s = [] then None else Some s)"
| "nonEmpty Undefined = None"
| "nonEmpty Null = None"

definition valueOf :: "eventDateTime \<Rightarrow> timeValue option" where
  "valueOf w =
     (case (nonEmpty (date w), nonEmpty (dateTime w)) of
        (Some d, None) \<Rightarrow> Some (DateOnly d)
      | (None, Some t) \<Rightarrow> Some (Instant t)
      | _ \<Rightarrow> None)"

text \<open>Two encoded values denote one instant: both are dates the host reads, to one time.\<close>

definition sameInstant :: "host \<Rightarrow> string \<Rightarrow> string \<Rightarrow> bool" where
  "sameInstant h a b =
     (case Date_getTime h a of
        Some x \<Rightarrow> Date_getTime h b = Some x
      | None \<Rightarrow> False)"

text \<open>
  Value equality as the specification words it: date-only values as instants at
  midnight, instants as absolute instants, the two variants never equal.
\<close>

fun valueEq :: "host \<Rightarrow> timeValue \<Rightarrow> timeValue \<Rightarrow> bool" where
  "valueEq h (DateOnly a) (DateOnly b) = sameInstant h a b"
| "valueEq h (Instant a) (Instant b) = sameInstant h a b"
| "valueEq h (DateOnly a) (Instant b) = False"
| "valueEq h (Instant a) (DateOnly b) = False"

text \<open>The two action lists of the specification's diff.\<close>

definition toInsert :: "host \<Rightarrow> event list \<Rightarrow> event list \<Rightarrow> event list" where
  "toInsert h sourceEvents destinationEvents =
     filter (\<lambda>e. \<not> (\<exists>old \<in> set destinationEvents. sameOccurrence h old e)) sourceEvents"

definition toDelete :: "host \<Rightarrow> event list \<Rightarrow> event list \<Rightarrow> event list" where
  "toDelete h sourceEvents destinationEvents =
     filter (\<lambda>old. \<not> (\<exists>e \<in> set sourceEvents. sameOccurrence h old e)) destinationEvents"

text \<open>The actions in the order the run takes them: the inserts, then the deletes.\<close>

definition plan :: "host \<Rightarrow> event list \<Rightarrow> event list \<Rightarrow> action list" where
  "plan h sourceEvents destinationEvents =
     map Insert (toInsert h sourceEvents destinationEvents)
       @ map Delete (toDelete h sourceEvents destinationEvents)"

text \<open>The line that reports an action, and the report lines among what was written.\<close>

fun reportOf :: "action \<Rightarrow> string" where
  "reportOf (Insert e) = tab @ ''Inserted: '' @ toStr (summary e) @ nl"
| "reportOf (Delete old) = tab @ ''Deleted: '' @ toStr (summary old) @ nl"

fun isReport :: "string \<Rightarrow> bool" where
  "isReport (c # s) = (c = CHR 0x09)"
| "isReport [] = False"

definition reports :: "string list \<Rightarrow> string list" where
  "reports out = filter isReport out"


text \<open>The shape of a start or an end of an all-day event: a \<^verbatim>\<open>date\<close> string and no \<^verbatim>\<open>dateTime\<close>.\<close>

definition allDayShape :: "eventDateTime \<Rightarrow> bool" where
  "allDayShape w = ((case date w of Str s \<Rightarrow> True | _ \<Rightarrow> False) \<and> dateTime w = Undefined)"

text \<open>The call to the calendar that an action is, on the calendar \<open>c\<close>.\<close>

fun callApi :: "'s calendarAPI \<Rightarrow> action \<Rightarrow> 's \<Rightarrow> bool \<times> 's" where
  "callApi api (Insert e) c = Events_insert api e c"
| "callApi api (Delete old) c = Events_delete api (id' old) c"

text \<open>The calendar after the calls of \<open>acts\<close>, made in order from the calendar \<open>c\<close>.\<close>

fun calAfter :: "'s calendarAPI \<Rightarrow> action list \<Rightarrow> 's \<Rightarrow> 's" where
  "calAfter api [] c = c"
| "calAfter api (a # acts) c = calAfter api acts (snd (callApi api a c))"

text \<open>
  The calendar's answer to the action of index \<open>j\<close> of \<open>acts\<close>, called after the actions
  before it, from the calendar \<open>c\<close>: \<open>True\<close> when it fulfils the call, \<open>False\<close> when it
  rejects it.
\<close>

definition fulfilled :: "'s calendarAPI \<Rightarrow> action list \<Rightarrow> 's \<Rightarrow> nat \<Rightarrow> bool" where
  "fulfilled api acts c j = fst (callApi api (acts ! j) (calAfter api (take j acts) c))"

text \<open>
  What a pass over the actions \<open>acts\<close> has done when it ends. At its end: every call was
  fulfilled, made and reported. At a rejected call, of index \<open>k\<close>: the calls before it were
  fulfilled and that one rejected, the calls up to it were made, those before it reported.
\<close>

definition passDone ::
  "bool \<Rightarrow> 's calendarAPI \<Rightarrow> action list \<Rightarrow> nat \<Rightarrow> 's run \<Rightarrow> 's run + nat \<times> 's run \<Rightarrow> bool" where
  "passDone quiet api acts n r res =
     (case res of
        Inr (n', r') \<Rightarrow>
          (\<forall>j < length acts. fulfilled api acts (cal r) j)
            \<and> cal r' = calAfter api acts (cal r)
            \<and> calls r' = calls r @ acts \<and> n' = n + length acts
            \<and> stdout r' = stdout r @ (if quiet then [] else map reportOf acts)
      | Inl r' \<Rightarrow>
          (\<exists>k < length acts.
             (\<forall>j < k. fulfilled api acts (cal r) j) \<and> \<not> fulfilled api acts (cal r) k
               \<and> calls r' = calls r @ take (Suc k) acts
               \<and> stdout r' = stdout r @ (if quiet then [] else map reportOf (take k acts))))"

text \<open>The same of a whole run, on the report lines of its output.\<close>

definition runDone ::
  "bool \<Rightarrow> 's calendarAPI \<Rightarrow> action list \<Rightarrow> 's run \<Rightarrow> 's run + 's run \<Rightarrow> bool" where
  "runDone quiet api acts r res =
     (case res of
        Inr r' \<Rightarrow>
          (\<forall>j < length acts. fulfilled api acts (cal r) j)
            \<and> cal r' = calAfter api acts (cal r)
            \<and> calls r' = calls r @ acts
            \<and> reports (stdout r') = reports (stdout r) @ (if quiet then [] else map reportOf acts)
      | Inl r' \<Rightarrow>
          (\<exists>k < length acts.
             (\<forall>j < k. fulfilled api acts (cal r) j) \<and> \<not> fulfilled api acts (cal r) k
               \<and> calls r' = calls r @ take (Suc k) acts
               \<and> reports (stdout r')
                   = reports (stdout r) @ (if quiet then [] else map reportOf (take k acts))))"

section \<open>Example events and calendars\<close>

definition timedEvent :: "string \<Rightarrow> string \<Rightarrow> string \<Rightarrow> event" where
  "timedEvent s a b =
     \<lparr>start = \<lparr>date = Undefined, dateTime = Str a\<rparr>,
      end' = \<lparr>date = Undefined, dateTime = Str b\<rparr>,
      location = None, summary = Some s, description = None, id' = None\<rparr>"

definition allDayEvent :: "string \<Rightarrow> string \<Rightarrow> string \<Rightarrow> event" where
  "allDayEvent s a b =
     \<lparr>start = \<lparr>date = Str a, dateTime = Undefined\<rparr>,
      end' = \<lparr>date = Str b, dateTime = Undefined\<rparr>,
      location = None, summary = Some s, description = None, id' = None\<rparr>"

definition eventA :: event where
  "eventA = timedEvent ''A'' ''2024-01-10T05:00:00.000Z'' ''2024-01-10T06:00:00.000Z''"

definition eventB :: event where
  "eventB = allDayEvent ''B'' ''2024-01-11'' ''2024-01-12''"

definition eventB' :: event where
  "eventB' = eventB\<lparr>location := Some ''Room A'', description := Some ''notes'', id' := Some ''b1''\<rparr>"

definition eventC :: event where
  "eventC = (timedEvent ''C'' ''2024-01-12T01:00:00.000Z'' ''2024-01-12T02:00:00.000Z'')\<lparr>id' := Some ''c1''\<rparr>"

text \<open>A calendar that fulfils every call; its state counts the calls.\<close>

definition acceptAll :: "nat calendarAPI" where
  "acceptAll = \<lparr>Events_insert = (\<lambda>e c. (True, Suc c)), Events_delete = (\<lambda>i c. (True, Suc c))\<rparr>"

definition run0 :: "nat run" where
  "run0 = \<lparr>cal = 0, stdout = [], calls = []\<rparr>"

definition eventD :: event where
  "eventD = allDayEvent ''D'' ''2024-01-11'' ''2024-01-12''"

definition eventD' :: event where
  "eventD' = timedEvent ''D'' ''2024-01-11T00:00:00.000Z'' ''2024-01-12T00:00:00.000Z''"

text \<open>A calendar that rejects its first call and fulfils every later one.\<close>

definition rejectFirst :: "nat calendarAPI" where
  "rejectFirst =
     \<lparr>Events_insert = (\<lambda>e c. (c \<noteq> 0, Suc c)), Events_delete = (\<lambda>i c. (c \<noteq> 0, Suc c))\<rparr>"

text \<open>A calendar that rejects its second call and fulfils every other one.\<close>

definition rejectSecond :: "nat calendarAPI" where
  "rejectSecond =
     \<lparr>Events_insert = (\<lambda>e c. (c \<noteq> 1, Suc c)), Events_delete = (\<lambda>i c. (c \<noteq> 1, Suc c))\<rparr>"

text \<open>The UTF-8 bytes of the category of the specification's scenario, U+4F1A U+8B70.\<close>

definition kaigi :: string where
  "kaigi = [CHR 0xE4, CHR 0xBC, CHR 0x9A, CHR 0xE8, CHR 0xAD, CHR 0xB0]"

text \<open>The two scenario lines of the specification, and a header line.\<close>

definition planningLine :: "string list" where
  "planningLine =
     [''2024-01-10'', ''14:00'', ''2024-01-10'', [], kaigi, ''Planning'', ''notes'', [], ''Room A'']"

definition offsiteLine :: "string list" where
  "offsiteLine = [''2024-01-10'', [], ''2024-01-10'', [], [], ''Offsite'', [], [], ''HQ'']"

definition headerLine :: "string list" where
  "headerLine = [''startDate'', ''startTime'', ''endDate'', ''endTime'', ''category'', ''title'',
     ''description'', ''attendees'', ''location'']"

text \<open>A line whose dates are no dates.\<close>

definition garbageLine :: "string list" where
  "garbageLine = [''garbage'', ''10:00'', ''garbage'', ''11:00'', [], ''Review'', [], [], []]"

text \<open>A line of two days in the form \<^verbatim>\<open>YYYY/M/D\<close>, in chronological order.\<close>

definition slashLine :: "string list" where
  "slashLine = [''2024/9/30'', ''10:00'', ''2024/10/1'', ''11:00'', [], ''Trip'', [], [], []]"

text \<open>The same two days in the same form, the later day first: a reversed line.\<close>

definition slashReversedLine :: "string list" where
  "slashReversedLine = [''2024/10/1'', ''10:00'', ''2024/9/30'', ''11:00'', [], ''Trip'', [], [], []]"

text \<open>A line with a time that is no time.\<close>

definition badEndLine :: "string list" where
  "badEndLine = [''2024-01-10'', ''14:00'', ''2024-01-10'', ''garbage'', [], ''Review'', [], [], []]"

text \<open>A reversed line with a start time and no end time.\<close>

definition reversedLine :: "string list" where
  "reversedLine = [''2024-01-12'', ''14:00'', ''2024-01-10'', [], [], ''Visit'', [], [], []]"

section \<open>Lemmas: the equality test\<close>

lemma nonEmpty_Str: "nonEmpty v = Some s \<Longrightarrow> v = Str s"
  by (cases v) (auto split: if_splits)

lemma check_Str: "check h (Str a) (Str b) = sameInstant h a b"
  by (auto simp: check_def sameInstant_def split: option.splits)

lemma valueOf_cases:
  assumes "valueOf w = Some v"
  shows "(\<exists>d. v = DateOnly d \<and> date w = Str d \<and> d \<noteq> [] \<and> \<not> truthy (dateTime w))
       \<or> (\<exists>t. v = Instant t \<and> dateTime w = Str t \<and> t \<noteq> [] \<and> \<not> truthy (date w))"
  using assms
  by (cases "date w"; cases "dateTime w")
     (auto simp: valueOf_def split: if_splits)

lemma isEqual_valueEq:
  assumes "valueOf v = Some x" "valueOf w = Some y"
  shows "((truthy (date v) \<and> truthy (date w) \<and> check h (date v) (date w))
         \<or> (truthy (dateTime v) \<and> truthy (dateTime w) \<and> check h (dateTime v) (dateTime w)))
         = valueEq h x y"
  using valueOf_cases[OF assms(1)] valueOf_cases[OF assms(2)]
  by (auto simp: check_Str)

section \<open>Lemmas: the scans and the passes\<close>

lemma scanOld_False:
  "scanOld h event olds False = (\<exists>old \<in> set olds. sameOccurrence h old event)"
  by (induction olds) (auto simp: sameOccurrence_def)

lemma scanNew_False:
  "scanNew h old events False = (\<exists>event \<in> set events. sameOccurrence h old event)"
  by (induction events) (auto simp: sameOccurrence_def)

lemma toInsert_Cons:
  "toInsert h (e # src) dst =
     (if scanOld h e dst False then toInsert h src dst else e # toInsert h src dst)"
  by (simp add: toInsert_def scanOld_False)

lemma toDelete_Cons:
  "toDelete h src (old # dst) =
     (if scanNew h old src False then toDelete h src dst else old # toDelete h src dst)"
  by (simp add: toDelete_def scanNew_False)

lemma cal_log: "cal (log q s r) = cal r"
  by (simp add: log_def)

lemma calls_log: "calls (log q s r) = calls r"
  by (simp add: log_def)

lemma fulfilled_0: "fulfilled api (a # acts) c 0 = fst (callApi api a c)"
  by (simp add: fulfilled_def)

lemma fulfilled_Suc:
  "fulfilled api (a # acts) c (Suc j) = fulfilled api acts (snd (callApi api a c)) j"
  by (simp add: fulfilled_def)

lemma fulfilled_Cons_all:
  assumes "fst (callApi api a c)" and "\<forall>j < k. fulfilled api acts (snd (callApi api a c)) j"
  shows "\<forall>j < Suc k. fulfilled api (a # acts) c j"
proof (intro allI impI)
  fix j assume "j < Suc k"
  with assms show "fulfilled api (a # acts) c j"
    by (cases j) (simp_all add: fulfilled_0 fulfilled_Suc)
qed

lemma calAfter_append: "calAfter api (as @ bs) c = calAfter api bs (calAfter api as c)"
  by (induction as arbitrary: c) simp_all

lemma fulfilled_append_left:
  "j < length as \<Longrightarrow> fulfilled api (as @ bs) c j = fulfilled api as c j"
  by (simp add: fulfilled_def nth_append)

lemma fulfilled_append_right:
  "fulfilled api (as @ bs) c (length as + j) = fulfilled api bs (calAfter api as c) j"
  by (simp add: fulfilled_def nth_append calAfter_append)

lemma fulfilled_append_all:
  assumes "\<forall>j < length as. fulfilled api as c j"
    and "\<forall>j < k. fulfilled api bs (calAfter api as c) j"
  shows "\<forall>j < length as + k. fulfilled api (as @ bs) c j"
proof (intro allI impI)
  fix j assume j: "j < length as + k"
  show "fulfilled api (as @ bs) c j"
  proof (cases "j < length as")
    case True
    with assms(1) show ?thesis by (simp add: fulfilled_append_left)
  next
    case False
    then obtain i where i: "j = length as + i"
      by (metis le_Suc_ex not_less)
    with j assms(2) show ?thesis by (simp add: fulfilled_append_right)
  qed
qed

lemma passDone_step:
  assumes ok: "callApi api a (cal r) = (True, c)"
    and rest: "passDone q api acts (Suc n)
             (log q (reportOf a) (r\<lparr>cal := c, calls := calls r @ [a]\<rparr>)) res"
  shows "passDone q api (a # acts) n r res"
proof (cases res)
  case (Inl r')
  with rest obtain k where k: "k < length acts"
      "\<forall>j < k. fulfilled api acts c j" "\<not> fulfilled api acts c k"
      "calls r' = calls r @ a # take (Suc k) acts"
      "stdout r' = stdout r @ (if q then [] else reportOf a # map reportOf (take k acts))"
    by (auto simp: passDone_def log_def split: if_splits)
  from ok k(2) have "\<forall>j < Suc k. fulfilled api (a # acts) (cal r) j"
    by (intro fulfilled_Cons_all) simp_all
  moreover from ok k(3) have "\<not> fulfilled api (a # acts) (cal r) (Suc k)"
    by (simp add: fulfilled_Suc)
  ultimately have "Suc k < length (a # acts)
      \<and> (\<forall>j < Suc k. fulfilled api (a # acts) (cal r) j)
      \<and> \<not> fulfilled api (a # acts) (cal r) (Suc k)
      \<and> calls r' = calls r @ take (Suc (Suc k)) (a # acts)
      \<and> stdout r' = stdout r @ (if q then [] else map reportOf (take (Suc k) (a # acts)))"
    using k(1,4,5) by simp
  with Inl show ?thesis unfolding passDone_def by (simp only: sum.case) blast
next
  case (Inr p)
  obtain n' r' where p: "p = (n', r')" by (cases p)
  with Inr rest have k: "\<forall>j < length acts. fulfilled api acts c j"
      "cal r' = calAfter api acts c" "calls r' = calls r @ a # acts" "n' = Suc n + length acts"
      "stdout r' = stdout r @ (if q then [] else reportOf a # map reportOf acts)"
    by (auto simp: passDone_def log_def split: if_splits)
  from ok k(1) have "\<forall>j < Suc (length acts). fulfilled api (a # acts) (cal r) j"
    by (intro fulfilled_Cons_all) simp_all
  with ok k(2-5) Inr p show ?thesis
    by (simp add: passDone_def)
qed

lemma passDone_reject:
  assumes "callApi api a (cal r) = (False, c)"
  shows "passDone q api (a # acts) n r (Inl (r\<lparr>cal := c, calls := calls r @ [a]\<rparr>))"
  using assms by (auto simp: passDone_def fulfilled_0 intro!: exI[of _ 0])

lemma insertLoop_done:
  "passDone q api (map Insert (toInsert h src dst)) n r (insertLoop h api q src dst n r)"
proof (induction src arbitrary: n r)
  case Nil
  show ?case by (simp add: toInsert_def passDone_def)
next
  case (Cons e src)
  show ?case
  proof (cases "scanOld h e dst False")
    case True
    with Cons.IH[of n r] show ?thesis by (simp add: toInsert_Cons)
  next
    case False
    obtain ok c where oc: "Events_insert api e (cal r) = (ok, c)"
      by (cases "Events_insert api e (cal r)")
    show ?thesis
    proof (cases ok)
      case True
      have "passDone q api (Insert e # map Insert (toInsert h src dst)) n r
              (insertLoop h api q src dst (Suc n)
                 (log q (reportOf (Insert e)) (r\<lparr>cal := c, calls := calls r @ [Insert e]\<rparr>)))"
        by (rule passDone_step) (use oc True in simp, rule Cons.IH)
      with False oc True show ?thesis by (simp add: toInsert_Cons)
    next
      case ok: False
      have "passDone q api (Insert e # map Insert (toInsert h src dst)) n r
              (Inl (r\<lparr>cal := c, calls := calls r @ [Insert e]\<rparr>))"
        by (rule passDone_reject) (use oc ok in simp)
      with False oc ok show ?thesis by (simp add: toInsert_Cons)
    qed
  qed
qed

lemma deleteLoop_done:
  "passDone q api (map Delete (toDelete h src dst)) n r (deleteLoop h api q dst src n r)"
proof (induction dst arbitrary: n r)
  case Nil
  show ?case by (simp add: toDelete_def passDone_def)
next
  case (Cons old dst)
  show ?case
  proof (cases "scanNew h old src False")
    case True
    with Cons.IH[of n r] show ?thesis by (simp add: toDelete_Cons)
  next
    case False
    obtain ok c where oc: "Events_delete api (id' old) (cal r) = (ok, c)"
      by (cases "Events_delete api (id' old) (cal r)")
    show ?thesis
    proof (cases ok)
      case True
      have "passDone q api (Delete old # map Delete (toDelete h src dst)) n r
              (deleteLoop h api q dst src (Suc n)
                 (log q (reportOf (Delete old)) (r\<lparr>cal := c, calls := calls r @ [Delete old]\<rparr>)))"
        by (rule passDone_step) (use oc True in simp, rule Cons.IH)
      with False oc True show ?thesis by (simp add: toDelete_Cons)
    next
      case ok: False
      have "passDone q api (Delete old # map Delete (toDelete h src dst)) n r
              (Inl (r\<lparr>cal := c, calls := calls r @ [Delete old]\<rparr>))"
        by (rule passDone_reject) (use oc ok in simp)
      with False oc ok show ?thesis by (simp add: toDelete_Cons)
    qed
  qed
qed

lemma reports_append: "reports (xs @ ys) = reports xs @ reports ys"
  by (simp add: reports_def)

lemma reports_Nil: "reports [] = []"
  by (simp add: reports_def)

lemma isReport_reportOf: "isReport (reportOf a)"
  by (cases a) (simp_all add: tab_def)

lemma reports_reportOf: "reports (map reportOf acts) = map reportOf acts"
  by (induction acts) (simp_all add: reports_def isReport_reportOf)

lemma reports_log:
  "reports (stdout (log q s r)) = reports (stdout r) @ (if q \<or> \<not> isReport s then [] else [s])"
  by (simp add: log_def reports_def)

lemma passDone_runDone:
  assumes "passDone q api acts n r res"
  shows "runDone q api acts r (map_sum id snd res)"
proof (cases res)
  case (Inl r')
  with assms obtain k where k: "k < length acts"
      "\<forall>j < k. fulfilled api acts (cal r) j" "\<not> fulfilled api acts (cal r) k"
      "calls r' = calls r @ take (Suc k) acts"
      "stdout r' = stdout r @ (if q then [] else map reportOf (take k acts))"
    unfolding passDone_def by auto
  have "reports (stdout r') = reports (stdout r) @ (if q then [] else map reportOf (take k acts))"
    unfolding k(5) by (simp add: reports_append reports_reportOf reports_Nil)
  with k(1-4) Inl show ?thesis unfolding runDone_def by auto
next
  case (Inr p)
  obtain n' r' where p: "p = (n', r')" by (cases p)
  with Inr assms have k: "\<forall>j < length acts. fulfilled api acts (cal r) j"
      "cal r' = calAfter api acts (cal r)" "calls r' = calls r @ acts"
      "stdout r' = stdout r @ (if q then [] else map reportOf acts)"
    unfolding passDone_def by auto
  have "reports (stdout r') = reports (stdout r) @ (if q then [] else map reportOf acts)"
    unfolding k(4) by (simp add: reports_append reports_reportOf reports_Nil)
  with k(1-3) Inr p show ?thesis unfolding runDone_def by auto
qed

lemma runDone_start:
  assumes "runDone q api acts r0 res"
    and "cal r0 = cal r" and "calls r0 = calls r" and "reports (stdout r0) = reports (stdout r)"
  shows "runDone q api acts r res"
  using assms unfolding runDone_def by (cases res) simp_all

lemma runDone_InlI:
  assumes "k < length acts"
    and "\<forall>j < k. fulfilled api acts (cal r) j" and "\<not> fulfilled api acts (cal r) k"
    and "calls r' = calls r @ take (Suc k) acts"
    and "reports (stdout r') = reports (stdout r) @ (if q then [] else map reportOf (take k acts))"
  shows "runDone q api acts r (Inl r')"
  using assms unfolding runDone_def by auto

lemma runDone_left:
  assumes "runDone q api as r (Inl r')"
  shows "runDone q api (as @ bs) r (Inl r')"
proof -
  from assms obtain k where k: "k < length as"
      "\<forall>j < k. fulfilled api as (cal r) j" "\<not> fulfilled api as (cal r) k"
      "calls r' = calls r @ take (Suc k) as"
      "reports (stdout r') = reports (stdout r) @ (if q then [] else map reportOf (take k as))"
    unfolding runDone_def by auto
  show ?thesis
    by (rule runDone_InlI[of k]) (use k in \<open>auto simp: fulfilled_append_left\<close>)
qed

lemma runDone_then:
  assumes A: "runDone q api as r (Inr r1)" and B: "runDone q api bs r1 res"
  shows "runDone q api (as @ bs) r res"
proof -
  from A have a: "\<forall>j < length as. fulfilled api as (cal r) j"
      "cal r1 = calAfter api as (cal r)" "calls r1 = calls r @ as"
      "reports (stdout r1) = reports (stdout r) @ (if q then [] else map reportOf as)"
    unfolding runDone_def by auto
  show ?thesis
  proof (cases res)
    case (Inl r')
    with B obtain k where k: "k < length bs"
        "\<forall>j < k. fulfilled api bs (cal r1) j" "\<not> fulfilled api bs (cal r1) k"
        "calls r' = calls r1 @ take (Suc k) bs"
        "reports (stdout r') = reports (stdout r1) @ (if q then [] else map reportOf (take k bs))"
      unfolding runDone_def by auto
    from a(1) k(2) have 1: "\<forall>j < length as + k. fulfilled api (as @ bs) (cal r) j"
      unfolding a(2) by (rule fulfilled_append_all)
    from k(3) have 2: "\<not> fulfilled api (as @ bs) (cal r) (length as + k)"
      unfolding a(2) by (simp add: fulfilled_append_right)
    have "runDone q api (as @ bs) r (Inl r')"
      by (rule runDone_InlI[of "length as + k"]) (use 1 2 k(1,4,5) a(3,4) in auto)
    with Inl show ?thesis by simp
  next
    case (Inr r2)
    with B have b: "\<forall>j < length bs. fulfilled api bs (cal r1) j"
        "cal r2 = calAfter api bs (cal r1)" "calls r2 = calls r1 @ bs"
        "reports (stdout r2) = reports (stdout r1) @ (if q then [] else map reportOf bs)"
      unfolding runDone_def by auto
    from a(1) b(1) have "\<forall>j < length as + length bs. fulfilled api (as @ bs) (cal r) j"
      unfolding a(2) by (rule fulfilled_append_all)
    with a b(2-4) Inr show ?thesis
      unfolding runDone_def by (auto simp: calAfter_append)
  qed
qed

lemma runDone_log:
  assumes "runDone q api acts r (Inr r')" and "\<not> isReport s"
  shows "runDone q api acts r (Inr (log q s r'))"
  using assms unfolding runDone_def by (simp add: calls_log cal_log reports_log)

lemma reconcile_done:
  "runDone q api (plan h src dst) (r :: 's run) (reconcile h api q src dst r)"
proof -
  let ?ins = "map Insert (toInsert h src dst)"
  let ?del = "map Delete (toDelete h src dst)"
  define r0 where "r0 = log q (''>>>> Inserting new events...'' @ nl) r"
  define f where "f = (\<lambda>p :: nat \<times> 's run.
      log q (''>>>> Deleting removed events...'' @ nl)
        (log q (''>>>> Inserted '' @ showNat (fst p) @ '' events.'' @ nl) (snd p)))"
  define g where "g = (\<lambda>p :: nat \<times> 's run.
      case deleteLoop h api q dst src 0 (f p) of
        Inl r' \<Rightarrow> Inl r'
      | Inr (deletedCount, r2) \<Rightarrow>
          Inr (log q (''>>>> Deleted '' @ showNat deletedCount @ '' events.'' @ nl) r2))"
  have r0: "cal r0 = cal r" "calls r0 = calls r" "reports (stdout r0) = reports (stdout r)"
    by (simp_all add: r0_def cal_log calls_log reports_log)
  have f: "cal (f p) = cal (snd p)" "calls (f p) = calls (snd p)"
    "reports (stdout (f p)) = reports (stdout (snd p))" for p
    by (simp_all add: f_def cal_log calls_log reports_log)
  have g: "runDone q api ?del (snd p) (g p)" for p
  proof -
    have D: "runDone q api ?del (f p) (map_sum id snd (deleteLoop h api q dst src 0 (f p)))"
      by (rule passDone_runDone) (rule deleteLoop_done)
    have "runDone q api ?del (f p) (g p)"
    proof (cases "deleteLoop h api q dst src 0 (f p)")
      case (Inl r')
      with D show ?thesis by (simp add: g_def)
    next
      case (Inr pd)
      obtain m r3 where pd: "pd = (m, r3)" by (cases pd)
      with Inr D have "runDone q api ?del (f p) (Inr r3)" by simp
      then have "runDone q api ?del (f p)
          (Inr (log q (''>>>> Deleted '' @ showNat m @ '' events.'' @ nl) r3))"
        by (rule runDone_log) simp
      with Inr pd show ?thesis by (simp add: g_def)
    qed
    then show ?thesis by (rule runDone_start) (rule f)+
  qed
  define res1 where "res1 = insertLoop h api q src dst 0 r0"
  have "runDone q api ?ins r0 (map_sum id snd res1)"
    unfolding res1_def by (rule passDone_runDone) (rule insertLoop_done)
  then have I: "runDone q api ?ins r (map_sum id snd res1)"
    by (rule runDone_start) (rule r0)+
  have rec: "reconcile h api q src dst r = (case res1 of Inl r' \<Rightarrow> Inl r' | Inr p \<Rightarrow> g p)"
    by (simp add: reconcile_def res1_def r0_def g_def f_def split: sum.splits prod.splits)
  show ?thesis
  proof (cases res1)
    case (Inl r')
    with I have "runDone q api ?ins r (Inl r')" by simp
    then have "runDone q api (?ins @ ?del) r (Inl r')" by (rule runDone_left)
    with Inl show ?thesis by (simp add: rec plan_def)
  next
    case (Inr p)
    with I have "runDone q api ?ins r (Inr (snd p))" by simp
    then have "runDone q api (?ins @ ?del) r (g p)" using g[of p] by (rule runDone_then)
    with Inr show ?thesis by (simp add: rec plan_def)
  qed
qed




section \<open>The reference host on the strings of the examples\<close>

lemma parseDate_0111: "parseDate 540 ''2024-01-11'' = Some 1704931200000"
  by code_simp

lemma parseDate_0112: "parseDate 540 ''2024-01-12'' = Some 1705017600000"
  by code_simp

lemma parseDate_0110T05: "parseDate 540 ''2024-01-10T05:00:00.000Z'' = Some 1704862800000"
  by code_simp

lemma parseDate_0110T06: "parseDate 540 ''2024-01-10T06:00:00.000Z'' = Some 1704866400000"
  by code_simp

lemma parseDate_0112T01: "parseDate 540 ''2024-01-12T01:00:00.000Z'' = Some 1705021200000"
  by code_simp

lemma parseDate_0112T02: "parseDate 540 ''2024-01-12T02:00:00.000Z'' = Some 1705024800000"
  by code_simp

lemma parseDate_0111T00: "parseDate 540 ''2024-01-11T00:00:00.000Z'' = Some 1704931200000"
  by code_simp

lemma parseDate_0112T00: "parseDate 540 ''2024-01-12T00:00:00.000Z'' = Some 1705017600000"
  by code_simp

lemmas example_events = eventA_def eventB_def eventB'_def eventC_def eventD_def eventD'_def
  timedEvent_def allDayEvent_def

lemmas example_dates = jsHost_def parseDate_0111 parseDate_0112 parseDate_0110T05
  parseDate_0110T06 parseDate_0112T01 parseDate_0112T02 parseDate_0111T00 parseDate_0112T00

section \<open>Lemmas: normalization\<close>

lemma jsGt_irrefl: "\<not> jsGt x x"
  by (cases x) simp_all

lemma jsGt_asym: "jsGt x y \<Longrightarrow> \<not> jsGt y x"
  by (cases x; cases y) auto

lemma jsGt_astral:
  "jsGt (Some ([CHR 0xEF, CHR 0xBC, CHR 0x91] @ '' 2024/1/10''))
        (Some ([CHR 0xF0, CHR 0x9F, CHR 0x98, CHR 0x80] @ '' 2024/1/11''))"
  by (simp add: utf16_def units_def)

lemma normalizeLine_Inr: "\<exists>ev. normalizeLine h line = Inr ev"
  by (auto simp: normalizeLine_def Let_def split: prod.splits)

lemma forEachLine_fst:
  "fst (forEachLine h q i ls (acc, out))
     = acc @ List.map_filter (\<lambda>line. case normalizeLine h line of Inr ev \<Rightarrow> Some ev | Inl e \<Rightarrow> None)
               (if i = 0 then drop 1 ls else ls)"
proof (induction ls arbitrary: i acc out)
  case Nil
  show ?case by (simp add: List.map_filter_simps)
next
  case (Cons l ls)
  show ?case
  proof (cases "i = 0")
    case True
    with Cons.IH[of "Suc 0" acc out] show ?thesis by simp
  next
    case False
    then show ?thesis
      using Cons.IH[of "Suc i"]
      by (cases "normalizeLine h l") (simp_all add: List.map_filter_simps)
  qed
qed

section \<open>The reference host on the lines of the examples\<close>

lemma parseDate_0110_midnight: "parseDate 540 ''2024-01-10 '' = Some 1704812400000"
  by code_simp

lemma parseDate_0110_1400: "parseDate 540 ''2024-01-10 14:00'' = Some 1704862800000"
  by code_simp

lemma parseDate_0110_235959: "parseDate 540 ''2024-01-10 23:59:59'' = Some 1704898799000"
  by code_simp

lemma parseDate_0112_1400: "parseDate 540 ''2024-01-12 14:00'' = Some 1705035600000"
  by code_simp

lemma parseDate_garbage_1000: "parseDate 540 ''garbage 10:00'' = None"
  by code_simp

lemma parseDate_garbage_1100: "parseDate 540 ''garbage 11:00'' = None"
  by code_simp

lemma parseDate_slash_0930: "parseDate 540 ''2024/9/30 10:00'' = Some 1727658000000"
  by code_simp

lemma parseDate_slash_1001: "parseDate 540 ''2024/10/1 11:00'' = Some 1727748000000"
  by code_simp

lemma parseDate_iso_1001: "parseDate 540 ''2024-10-01T02:00:00.000Z'' = Some 1727748000000"
  by code_simp

lemma parseDate_iso_0930: "parseDate 540 ''2024-09-30T01:00:00.000Z'' = Some 1727658000000"
  by code_simp

lemma formatYMD_19732: "formatYMD 19732 = ''2024-01-10''"
  by code_simp

lemma formatYMD_19733: "formatYMD 19733 = ''2024-01-11''"
  by code_simp

lemma isoString_0110T05: "isoString 1704862800000 = ''2024-01-10T05:00:00.000Z''"
  by code_simp

lemma isoString_0110T1459: "isoString 1704898799000 = ''2024-01-10T14:59:59.000Z''"
  by code_simp

lemma isoString_0930T01: "isoString 1727658000000 = ''2024-09-30T01:00:00.000Z''"
  by code_simp

lemma isoString_1001T02: "isoString 1727748000000 = ''2024-10-01T02:00:00.000Z''"
  by code_simp

lemma isoString_0109T15: "isoString 1704812400000 = ''2024-01-09T15:00:00.000Z''"
  by code_simp

lemma isoString_0112T05: "isoString 1705035600000 = ''2024-01-12T05:00:00.000Z''"
  by code_simp

lemma parseDate_slash_1001_1000: "parseDate 540 ''2024/10/1 10:00'' = Some 1727744400000"
  by code_simp

lemma parseDate_slash_0930_1100: "parseDate 540 ''2024/9/30 11:00'' = Some 1727661600000"
  by code_simp

lemma parseDate_iso_1001T01: "parseDate 540 ''2024-10-01T01:00:00.000Z'' = Some 1727744400000"
  by code_simp

lemma parseDate_iso_0930T02: "parseDate 540 ''2024-09-30T02:00:00.000Z'' = Some 1727661600000"
  by code_simp

lemma isoString_1001T01: "isoString 1727744400000 = ''2024-10-01T01:00:00.000Z''"
  by code_simp

lemma isoString_0930T02: "isoString 1727661600000 = ''2024-09-30T02:00:00.000Z''"
  by code_simp

lemma parseDate_0110_garbage: "parseDate 540 ''2024-01-10 garbage'' = None"
  by code_simp




lemmas example_lines = planningLine_def offsiteLine_def headerLine_def garbageLine_def
  slashLine_def slashReversedLine_def badEndLine_def reversedLine_def lineAt_def summaryOf_def
  utf16_def units_def

lemmas example_host = jsHost_def moment_def parseDate_0110_midnight parseDate_0110_1400
  parseDate_0110_235959 parseDate_0112_1400 parseDate_garbage_1000 parseDate_garbage_1100
  parseDate_slash_0930 parseDate_slash_1001 parseDate_iso_1001 parseDate_iso_0930
  formatYMD_19732 formatYMD_19733 isoString_0110T05 isoString_0110T1459 isoString_0930T01
  isoString_1001T02 isoString_0109T15 isoString_0112T05 parseDate_slash_1001_1000
  parseDate_slash_0930_1100 parseDate_iso_1001T01 parseDate_iso_0930T02 isoString_1001T01
  isoString_0930T02 parseDate_0110_garbage

lemma normalizeLine_offsite:
  "normalizeLine (jsHost 540) offsiteLine
     = Inr \<lparr>start = \<lparr>date = Str ''2024-01-10'', dateTime = Undefined\<rparr>,
            end' = \<lparr>date = Str ''2024-01-11'', dateTime = Undefined\<rparr>,
            location = Some ''HQ'', summary = Some ''Offsite'', description = Some [],
            id' = None\<rparr>"
  by (simp add: normalizeLine_def example_lines example_host)

lemma normalizeLine_garbage:
  "normalizeLine (jsHost 540) garbageLine
     = Inr \<lparr>start = \<lparr>date = Undefined, dateTime = Null\<rparr>,
            end' = \<lparr>date = Undefined, dateTime = Null\<rparr>,
            location = Some [], summary = Some ''Review'', description = Some [],
            id' = None\<rparr>"
  by (simp add: normalizeLine_def example_lines example_host)

lemma normalizeLine_slash:
  "normalizeLine (jsHost 540) slashLine
     = Inr \<lparr>start = \<lparr>date = Undefined, dateTime = Str ''2024-10-01T02:00:00.000Z''\<rparr>,
            end' = \<lparr>date = Undefined, dateTime = Str ''2024-09-30T01:00:00.000Z''\<rparr>,
            location = Some [], summary = Some ''Trip'', description = Some [],
            id' = None\<rparr>"
  by (simp add: normalizeLine_def example_lines example_host)

lemma normalizeLine_slashReversed:
  "normalizeLine (jsHost 540) slashReversedLine
     = Inr \<lparr>start = \<lparr>date = Undefined, dateTime = Str ''2024-10-01T01:00:00.000Z''\<rparr>,
            end' = \<lparr>date = Undefined, dateTime = Str ''2024-09-30T02:00:00.000Z''\<rparr>,
            location = Some [], summary = Some ''Trip'', description = Some [],
            id' = None\<rparr>"
  by (simp add: normalizeLine_def example_lines example_host)

lemma normalizeLine_reversed:
  "normalizeLine (jsHost 540) reversedLine
     = Inr \<lparr>start = \<lparr>date = Undefined, dateTime = Str ''2024-01-09T15:00:00.000Z''\<rparr>,
            end' = \<lparr>date = Undefined, dateTime = Str ''2024-01-12T05:00:00.000Z''\<rparr>,
            location = Some [], summary = Some ''Visit'', description = Some [],
            id' = None\<rparr>"
  by (simp add: normalizeLine_def example_lines example_host)


section \<open>The claims\<close>



text \<open>
  C2. For two events whose start and end are each a value of the data model (date-only
  or instant), the test of the scans holds iff the summaries are equal, the start values
  are equal and the end values are equal, where \<open>valueEq\<close> compares two date-only values
  and two instants by the instant the host reads them as and never equates a date-only
  value with an instant. The description and the location play no part.
\<close>

theorem sameOccurrence_iff:
  assumes "valueOf (start a) = Some sa" and "valueOf (end' a) = Some ea"
    and "valueOf (start b) = Some sb" and "valueOf (end' b) = Some eb"
  shows "(sameOccurrence h a b \<longleftrightarrow>
            summary a = summary b \<and> valueEq h sa sb \<and> valueEq h ea eb)
       \<and> ((\<exists>d t. (sa = DateOnly d \<and> sb = Instant t) \<or> (sa = Instant t \<and> sb = DateOnly d)
                 \<or> (ea = DateOnly d \<and> eb = Instant t) \<or> (ea = Instant t \<and> eb = DateOnly d))
            \<longrightarrow> \<not> sameOccurrence h a b)
       \<and> sameOccurrence h (a\<lparr>description := dA, location := lA\<rparr>)
            (b\<lparr>description := dB, location := lB\<rparr>) = sameOccurrence h a b"
proof -
  have 1: "sameOccurrence h a b \<longleftrightarrow>
            summary a = summary b \<and> valueEq h sa sb \<and> valueEq h ea eb"
    using isEqual_valueEq[OF assms(1) assms(3), of h] isEqual_valueEq[OF assms(2) assms(4), of h]
    by (auto simp: sameOccurrence_def isEqualDate_def Let_def)
  have 2: "sameOccurrence h (a\<lparr>description := dA, location := lA\<rparr>)
            (b\<lparr>description := dB, location := lB\<rparr>) = sameOccurrence h a b"
    by (simp add: sameOccurrence_def isEqualDate_def)
  from 1 2 show ?thesis by auto
qed

theorem sameOccurrence_iff_witness:
  "valueOf (start eventD) = Some (DateOnly ''2024-01-11'')
   \<and> valueOf (end' eventD) = Some (DateOnly ''2024-01-12'')
   \<and> valueOf (start eventD') = Some (Instant ''2024-01-11T00:00:00.000Z'')
   \<and> valueOf (end' eventD') = Some (Instant ''2024-01-12T00:00:00.000Z'')
   \<and> summary eventD = summary eventD'
   \<and> Date_getTime (jsHost 540) ''2024-01-11'' = Date_getTime (jsHost 540) ''2024-01-11T00:00:00.000Z''
   \<and> \<not> sameOccurrence (jsHost 540) eventD eventD'
   \<and> sameOccurrence (jsHost 540) eventD eventD
   \<and> sameOccurrence (jsHost 540) (eventD\<lparr>description := Some ''x'', location := Some ''y''\<rparr>)
        (eventD\<lparr>description := None, location := None\<rparr>)"
proof -
  have v: "valueOf (start eventD) = Some (DateOnly ''2024-01-11'')"
    "valueOf (end' eventD) = Some (DateOnly ''2024-01-12'')"
    "valueOf (start eventD') = Some (Instant ''2024-01-11T00:00:00.000Z'')"
    "valueOf (end' eventD') = Some (Instant ''2024-01-12T00:00:00.000Z'')"
    by (simp_all add: valueOf_def example_events)
  have s: "summary eventD = summary eventD'"
    by (simp add: example_events)
  have g: "Date_getTime (jsHost 540) ''2024-01-11''
      = Date_getTime (jsHost 540) ''2024-01-11T00:00:00.000Z''"
    by (simp add: example_dates)
  have e: "valueEq (jsHost 540) (DateOnly ''2024-01-11'') (DateOnly ''2024-01-11'')"
    "valueEq (jsHost 540) (DateOnly ''2024-01-12'') (DateOnly ''2024-01-12'')"
    by (simp_all add: sameInstant_def example_dates)
  from sameOccurrence_iff[OF v(1) v(2) v(3) v(4), of "jsHost 540"]
  have 1: "\<not> sameOccurrence (jsHost 540) eventD eventD'" by blast
  from sameOccurrence_iff[OF v(1) v(2) v(1) v(2), where h = "jsHost 540" and dA = "Some ''x''"
      and lA = "Some ''y''" and dB = None and lB = None] e
  have 2: "sameOccurrence (jsHost 540) eventD eventD"
    "sameOccurrence (jsHost 540) (eventD\<lparr>description := Some ''x'', location := Some ''y''\<rparr>)
        (eventD\<lparr>description := None, location := None\<rparr>)"
    by simp_all
  from v s g 1 2 show ?thesis by simp
qed

text \<open>
  C3, as the claim states it: whatever the calendar answers, every action of the plan is
  attempted. It fails: on a calendar that rejects its first call, the run ends at the
  insert of the first event; the insert of the second event and the delete are never
  attempted, and nothing reports the rejected insert.
\<close>

theorem reconcile_rejected_counterexample:
  "reconcile (jsHost 540) rejectFirst False [eventA, eventB] [eventC] run0
     = Inl \<lparr>cal = 1, stdout = [''>>>> Inserting new events...'' @ nl], calls = [Insert eventA]\<rparr>
   \<and> plan (jsHost 540) [eventA, eventB] [eventC] = [Insert eventA, Insert eventB, Delete eventC]"
  by (simp add: reconcile_def rejectFirst_def run0_def log_def plan_def toInsert_def toDelete_def
        sameOccurrence_def example_events)

text \<open>
  C3, amended. The inserts and the deletes are attempted one at a time, in the order of
  the plan, each on the calendar as the calls before it left it. The run reaches its end
  exactly when the calendar fulfils every call: then every action was attempted, and
  each was reported by a line of its own (unless \<^verbatim>\<open>--quiet\<close>). Otherwise the run ends at
  the first call that the calendar rejects, of index \<open>k\<close> in the plan: the calls before it
  were fulfilled and are the ones reported, that call was made and is not reported, and
  no later action is attempted.
\<close>

theorem reconcile_stops_at_rejection:
  fixes r :: "'s run"
  shows "(case reconcile h api q src dst r of
            Inr r' \<Rightarrow>
              (\<forall>j < length (plan h src dst). fulfilled api (plan h src dst) (cal r) j)
                \<and> calls r' = calls r @ plan h src dst
                \<and> reports (stdout r')
                    = reports (stdout r) @ (if q then [] else map reportOf (plan h src dst))
          | Inl r' \<Rightarrow>
              (\<exists>k < length (plan h src dst).
                 (\<forall>j < k. fulfilled api (plan h src dst) (cal r) j)
                   \<and> \<not> fulfilled api (plan h src dst) (cal r) k
                   \<and> calls r' = calls r @ take (Suc k) (plan h src dst)
                   \<and> reports (stdout r')
                       = reports (stdout r)
                           @ (if q then [] else map reportOf (take k (plan h src dst)))))
       \<and> ((\<forall>j < length (plan h src dst). fulfilled api (plan h src dst) (cal r) j)
            \<longleftrightarrow> (\<exists>r'. reconcile h api q src dst r = Inr r'))"
proof -
  have D: "runDone q api (plan h src dst) r (reconcile h api q src dst r)"
    by (rule reconcile_done)
  show ?thesis
  proof (cases "reconcile h api q src dst r")
    case (Inl r')
    with D obtain k where k: "k < length (plan h src dst)"
        "\<forall>j < k. fulfilled api (plan h src dst) (cal r) j"
        "\<not> fulfilled api (plan h src dst) (cal r) k"
        "calls r' = calls r @ take (Suc k) (plan h src dst)"
        "reports (stdout r')
           = reports (stdout r) @ (if q then [] else map reportOf (take k (plan h src dst)))"
      unfolding runDone_def by auto
    from k(1,3) have "\<not> (\<forall>j < length (plan h src dst). fulfilled api (plan h src dst) (cal r) j)"
      by blast
    with k Inl show ?thesis by (simp only: sum.case) blast
  next
    case (Inr r')
    with D show ?thesis unfolding runDone_def by auto
  qed
qed

theorem reconcile_stops_at_rejection_witness:
  "plan (jsHost 540) [eventA, eventB] [eventC] = [Insert eventA, Insert eventB, Delete eventC]
   \<and> reconcile (jsHost 540) rejectSecond False [eventA, eventB] [eventC] run0
       = Inl \<lparr>cal = 2,
              stdout = [''>>>> Inserting new events...'' @ nl, tab @ ''Inserted: A'' @ nl],
              calls = [Insert eventA, Insert eventB]\<rparr>
   \<and> fulfilled rejectSecond [Insert eventA, Insert eventB, Delete eventC] (cal run0) 0
   \<and> \<not> fulfilled rejectSecond [Insert eventA, Insert eventB, Delete eventC] (cal run0) 1
   \<and> (\<exists>k < length (plan (jsHost 540) [eventA, eventB] [eventC]).
         \<not> fulfilled rejectSecond (plan (jsHost 540) [eventA, eventB] [eventC]) (cal run0) k
         \<and> [Insert eventA, Insert eventB]
             = calls run0 @ take (Suc k) (plan (jsHost 540) [eventA, eventB] [eventC])
         \<and> reports [''>>>> Inserting new events...'' @ nl, tab @ ''Inserted: A'' @ nl]
             = reports (stdout run0)
                 @ map reportOf (take k (plan (jsHost 540) [eventA, eventB] [eventC])))
   \<and> (\<exists>r'. reconcile (jsHost 540) acceptAll False [eventA, eventB] [eventC] run0 = Inr r')"
proof -
  let ?P = "plan (jsHost 540) [eventA, eventB] [eventC]"
  have p: "?P = [Insert eventA, Insert eventB, Delete eventC]"
    by (simp add: plan_def toInsert_def toDelete_def sameOccurrence_def example_events)
  have ev: "reconcile (jsHost 540) rejectSecond False [eventA, eventB] [eventC] run0
       = Inl \<lparr>cal = 2,
              stdout = [''>>>> Inserting new events...'' @ nl, tab @ ''Inserted: A'' @ nl],
              calls = [Insert eventA, Insert eventB]\<rparr>"
    by (simp add: reconcile_def rejectSecond_def run0_def log_def sameOccurrence_def
          example_events)
  have f: "fulfilled rejectSecond [Insert eventA, Insert eventB, Delete eventC] (cal run0) 0"
    "\<not> fulfilled rejectSecond [Insert eventA, Insert eventB, Delete eventC] (cal run0) 1"
    by (simp_all add: fulfilled_def rejectSecond_def run0_def)
  have "fst (callApi acceptAll a c)" for a c
    by (cases a) (simp_all add: acceptAll_def)
  then have ok: "\<forall>j < length ?P. fulfilled acceptAll ?P (cal run0) j"
    by (simp add: fulfilled_def)
  from reconcile_stops_at_rejection[where h = "jsHost 540" and api = rejectSecond and q = False
      and src = "[eventA, eventB]" and dst = "[eventC]" and r = run0] ev
  have 1: "\<exists>k < length ?P.
         \<not> fulfilled rejectSecond ?P (cal run0) k
         \<and> [Insert eventA, Insert eventB] = calls run0 @ take (Suc k) ?P
         \<and> reports [''>>>> Inserting new events...'' @ nl, tab @ ''Inserted: A'' @ nl]
             = reports (stdout run0) @ map reportOf (take k ?P)"
    by auto
  from reconcile_stops_at_rejection[where h = "jsHost 540" and api = acceptAll and q = False
      and src = "[eventA, eventB]" and dst = "[eventC]" and r = run0] ok
  have 2: "\<exists>r'. reconcile (jsHost 540) acceptAll False [eventA, eventB] [eventC] run0 = Inr r'"
    by blast
  from p ev f 1 2 show ?thesis by blast
qed

text \<open>
  C4. The claim: a line whose date and time strings do not parse is dropped. The code:
  neither \<^verbatim>\<open>new Date\<close> nor moment throws on such a string, so the \<^verbatim>\<open>catch\<close> is not reached
  and the event is pushed, with \<^verbatim>\<open>null\<close> for its start and end. Here on a CSV of a header
  and one line whose dates are the word \<^verbatim>\<open>garbage\<close>.
\<close>

theorem invalid_date_line_emitted:
  "Date_getTime (jsHost 540) ''garbage 10:00'' = None
   \<and> Date_getTime (jsHost 540) ''garbage 11:00'' = None
   \<and> parseLines (jsHost 540) False [headerLine, garbageLine]
       = ([\<lparr>start = \<lparr>date = Undefined, dateTime = Null\<rparr>,
            end' = \<lparr>date = Undefined, dateTime = Null\<rparr>,
            location = Some [], summary = Some ''Review'', description = Some [],
            id' = None\<rparr>], [])"
  by (simp add: parseLines_def normalizeLine_garbage)
     (simp add: example_host)

text \<open>
  C5. A line whose start time and end time are both empty gives an all-day event: the
  start and the end are \<^verbatim>\<open>date\<close> values. With \<open>startDate\<close> and \<open>endDate\<close> the two date
  fields in the order the block parses them (exchanged when the line is reversed): when
  both parse and the start is on or after the end, the end is the start plus one day; in
  particular when the two date fields are equal and parse.
\<close>

theorem allDay_spans_a_day:
  assumes "lineAt line 1 = Some []" and "lineAt line 3 = Some []"
    and "(startDate, endDate) =
           (if jsGt (lineAt line 0) (lineAt line 2) then (lineAt line 2, lineAt line 0)
            else (lineAt line 0, lineAt line 2))"
  shows "\<exists>ev. normalizeLine h line = Inr ev
           \<and> allDayShape (start ev) \<and> allDayShape (end' ev)
           \<and> date (start ev) = Str (format h (moment h (toStr startDate @ '' '')))
           \<and> (\<forall>s e. moment h (toStr startDate @ '' '') = Some s
                    \<and> moment h (toStr endDate @ '' '') = Some e \<and> e \<le> s
                  \<longrightarrow> date (end' ev) = Str (moment_format h (moment_add_day h s)))
           \<and> (\<forall>s. lineAt line 0 = lineAt line 2
                    \<and> moment h (toStr (lineAt line 0) @ '' '') = Some s
                  \<longrightarrow> date (start ev) = Str (moment_format h s)
                      \<and> date (end' ev) = Str (moment_format h (moment_add_day h s)))"
proof (cases "jsGt (lineAt line 0) (lineAt line 2)")
  case True
  then have ne: "lineAt line 0 \<noteq> lineAt line 2"
    by (auto simp: jsGt_irrefl)
  from True assms(3) have "startDate = lineAt line 2" "endDate = lineAt line 0"
    by simp_all
  with True ne assms(1,2) show ?thesis
    by (auto simp: normalizeLine_def Let_def allDayShape_def)
next
  case False
  with assms(3) have "startDate = lineAt line 0" "endDate = lineAt line 2"
    by simp_all
  with False assms(1,2) show ?thesis
    by (auto simp: normalizeLine_def Let_def allDayShape_def)
qed

theorem allDay_spans_a_day_witness:
  "lineAt offsiteLine 1 = Some [] \<and> lineAt offsiteLine 3 = Some []
   \<and> lineAt offsiteLine 0 = lineAt offsiteLine 2
   \<and> moment (jsHost 540) (toStr (lineAt offsiteLine 0) @ '' '') = Some 1704812400000
   \<and> (\<exists>ev. normalizeLine (jsHost 540) offsiteLine = Inr ev
         \<and> allDayShape (start ev) \<and> allDayShape (end' ev)
         \<and> date (start ev) = Str ''2024-01-10'' \<and> date (end' ev) = Str ''2024-01-11'')"
proof -
  have l: "lineAt offsiteLine 1 = Some []" "lineAt offsiteLine 3 = Some []"
    by (simp_all add: example_lines)
  have d: "lineAt offsiteLine 0 = lineAt offsiteLine 2"
    by (simp add: example_lines)
  have p: "(lineAt offsiteLine 0, lineAt offsiteLine 2) =
           (if jsGt (lineAt offsiteLine 0) (lineAt offsiteLine 2)
            then (lineAt offsiteLine 2, lineAt offsiteLine 0)
            else (lineAt offsiteLine 0, lineAt offsiteLine 2))"
    by (simp add: example_lines)
  have m: "moment (jsHost 540) (toStr (lineAt offsiteLine 0) @ '' '') = Some 1704812400000"
    by (simp add: example_lines example_host)
  from allDay_spans_a_day[OF l p, of "jsHost 540"] obtain ev where ev:
    "normalizeLine (jsHost 540) offsiteLine = Inr ev" "allDayShape (start ev)"
    "allDayShape (end' ev)"
    "\<forall>s. lineAt offsiteLine 0 = lineAt offsiteLine 2
            \<and> moment (jsHost 540) (toStr (lineAt offsiteLine 0) @ '' '') = Some s
          \<longrightarrow> date (start ev) = Str (moment_format (jsHost 540) s)
              \<and> date (end' ev) = Str (moment_format (jsHost 540) (moment_add_day (jsHost 540) s))"
    by blast
  from ev(4) d m have "date (start ev) = Str (moment_format (jsHost 540) 1704812400000)"
    "date (end' ev)
       = Str (moment_format (jsHost 540) (moment_add_day (jsHost 540) 1704812400000))"
    by blast+
  then have "date (start ev) = Str ''2024-01-10''" "date (end' ev) = Str ''2024-01-11''"
    by (simp_all add: example_host)
  with ev(1-3) l d m show ?thesis by blast
qed

text \<open>
  C6. The claim: on a line with \<open>startDate > endDate\<close> the pairs are exchanged and the
  timed event's start is not after its end. The code decides that a line is reversed by
  comparing the two date strings (line 178), under the comment \<^verbatim>\<open>Swap if the date is
  reversed\<close>; the order of the strings is not the order of the days. The line from
  \<^verbatim>\<open>2024/9/30\<close> to \<^verbatim>\<open>2024/10/1\<close> is in order, its start date is the greater string, and
  the code exchanges the pairs: the event starts on 1 October and ends on 30 September.
  The line from \<^verbatim>\<open>2024/10/1\<close> to \<^verbatim>\<open>2024/9/30\<close> is reversed, its start date is the smaller
  string, and the code leaves it: the event starts on 1 October and ends on 30 September.
\<close>

theorem string_order_swap_misorders:
  "jsGt (lineAt slashLine 0) (lineAt slashLine 2)
   \<and> normalizeLine (jsHost 540) slashLine
       = Inr \<lparr>start = \<lparr>date = Undefined, dateTime = Str ''2024-10-01T02:00:00.000Z''\<rparr>,
              end' = \<lparr>date = Undefined, dateTime = Str ''2024-09-30T01:00:00.000Z''\<rparr>,
              location = Some [], summary = Some ''Trip'', description = Some [],
              id' = None\<rparr>
   \<and> Date_getTime (jsHost 540) ''2024-10-01T02:00:00.000Z'' = Some 1727748000000
   \<and> Date_getTime (jsHost 540) ''2024-09-30T01:00:00.000Z'' = Some 1727658000000
   \<and> (1727658000000 :: int) < 1727748000000
   \<and> \<not> jsGt (lineAt slashReversedLine 0) (lineAt slashReversedLine 2)
   \<and> normalizeLine (jsHost 540) slashReversedLine
       = Inr \<lparr>start = \<lparr>date = Undefined, dateTime = Str ''2024-10-01T01:00:00.000Z''\<rparr>,
              end' = \<lparr>date = Undefined, dateTime = Str ''2024-09-30T02:00:00.000Z''\<rparr>,
              location = Some [], summary = Some ''Trip'', description = Some [],
              id' = None\<rparr>
   \<and> Date_getTime (jsHost 540) ''2024-10-01T01:00:00.000Z'' = Some 1727744400000
   \<and> Date_getTime (jsHost 540) ''2024-09-30T02:00:00.000Z'' = Some 1727661600000
   \<and> (1727661600000 :: int) < 1727744400000"
  by (simp add: normalizeLine_slash normalizeLine_slashReversed)
     (simp add: example_lines example_host)

text \<open>
  C7. A line with equal start and end date, a start time that is not empty and an empty
  end time gives a timed event whose end is read from the date followed by
  \<^verbatim>\<open>23:59:59\<close>. The scenario line gives such an event, with the category in brackets
  before the title.
\<close>

theorem sameDay_endOfDay_default:
  "(lineAt line 0 = Some d \<and> lineAt line 2 = Some d \<and> lineAt line 1 = Some t \<and> t \<noteq> []
      \<and> lineAt line 3 = Some []
    \<longrightarrow> normalizeLine h line
          = Inr \<lparr>start = \<lparr>date = Undefined, dateTime = toISOString h (moment h (d @ '' '' @ t))\<rparr>,
                 end' = \<lparr>date = Undefined,
                         dateTime = toISOString h (moment h (d @ '' 23:59:59''))\<rparr>,
                 location = lineAt line 8,
                 summary = Some (summaryOf line),
                 description = lineAt line 6,
                 id' = None\<rparr>)
   \<and> normalizeLine h planningLine
       = Inr \<lparr>start = \<lparr>date = Undefined,
                       dateTime = toISOString h (moment h ''2024-01-10 14:00'')\<rparr>,
              end' = \<lparr>date = Undefined,
                      dateTime = toISOString h (moment h ''2024-01-10 23:59:59'')\<rparr>,
              location = Some ''Room A'',
              summary = Some (''['' @ kaigi @ ''] Planning''),
              description = Some ''notes'',
              id' = None\<rparr>"
proof -
  have 1: "normalizeLine h line
          = Inr \<lparr>start = \<lparr>date = Undefined, dateTime = toISOString h (moment h (d @ '' '' @ t))\<rparr>,
                 end' = \<lparr>date = Undefined,
                         dateTime = toISOString h (moment h (d @ '' 23:59:59''))\<rparr>,
                 location = lineAt line 8,
                 summary = Some (summaryOf line),
                 description = lineAt line 6,
                 id' = None\<rparr>"
    if "lineAt line 0 = Some d" "lineAt line 2 = Some d" "lineAt line 1 = Some t" "t \<noteq> []"
      "lineAt line 3 = Some []" for line d t
    using that by (simp add: normalizeLine_def Let_def)
  have l: "lineAt planningLine 0 = Some ''2024-01-10''" "lineAt planningLine 2 = Some ''2024-01-10''"
    "lineAt planningLine 1 = Some ''14:00''" "lineAt planningLine 3 = Some []"
    "lineAt planningLine 8 = Some ''Room A''" "lineAt planningLine 6 = Some ''notes''"
    "summaryOf planningLine = ''['' @ kaigi @ ''] Planning''"
    by (simp_all add: lineAt_def planningLine_def summaryOf_def kaigi_def)
  have 2: "normalizeLine h planningLine
       = Inr \<lparr>start = \<lparr>date = Undefined,
                       dateTime = toISOString h (moment h ''2024-01-10 14:00'')\<rparr>,
              end' = \<lparr>date = Undefined,
                      dateTime = toISOString h (moment h ''2024-01-10 23:59:59'')\<rparr>,
              location = Some ''Room A'',
              summary = Some (''['' @ kaigi @ ''] Planning''),
              description = Some ''notes'',
              id' = None\<rparr>"
    using 1[OF l(1) l(2) l(3) _ l(4)] l(5,6,7) by simp
  from 1 2 show ?thesis by blast
qed

theorem sameDay_endOfDay_default_witness:
  "lineAt planningLine 0 = Some ''2024-01-10'' \<and> lineAt planningLine 2 = Some ''2024-01-10''
   \<and> lineAt planningLine 1 = Some ''14:00'' \<and> ''14:00'' \<noteq> [] \<and> lineAt planningLine 3 = Some []
   \<and> normalizeLine (jsHost 540) planningLine
       = Inr \<lparr>start = \<lparr>date = Undefined, dateTime = Str ''2024-01-10T05:00:00.000Z''\<rparr>,
              end' = \<lparr>date = Undefined, dateTime = Str ''2024-01-10T14:59:59.000Z''\<rparr>,
              location = Some ''Room A'',
              summary = Some (''['' @ kaigi @ ''] Planning''),
              description = Some ''notes'',
              id' = None\<rparr>"
proof -
  have l: "lineAt planningLine 0 = Some ''2024-01-10''" "lineAt planningLine 2 = Some ''2024-01-10''"
    "lineAt planningLine 1 = Some ''14:00''" "''14:00'' \<noteq> []" "lineAt planningLine 3 = Some []"
    by (simp_all add: example_lines)
  have r: "lineAt planningLine 8 = Some ''Room A''" "lineAt planningLine 6 = Some ''notes''"
    "summaryOf planningLine = ''['' @ kaigi @ ''] Planning''"
    by (simp_all add: example_lines kaigi_def)
  have h: "toISOString (jsHost 540) (moment (jsHost 540) (''2024-01-10'' @ '' '' @ ''14:00''))
             = Str ''2024-01-10T05:00:00.000Z''"
    "toISOString (jsHost 540) (moment (jsHost 540) (''2024-01-10'' @ '' 23:59:59''))
             = Str ''2024-01-10T14:59:59.000Z''"
    by (simp_all add: example_host)
  from sameDay_endOfDay_default[of planningLine "''2024-01-10''" "''14:00''" "jsHost 540",
      THEN conjunct1] l
  have "normalizeLine (jsHost 540) planningLine
          = Inr \<lparr>start = \<lparr>date = Undefined,
                   dateTime = toISOString (jsHost 540)
                     (moment (jsHost 540) (''2024-01-10'' @ '' '' @ ''14:00''))\<rparr>,
                 end' = \<lparr>date = Undefined,
                   dateTime = toISOString (jsHost 540)
                     (moment (jsHost 540) (''2024-01-10'' @ '' 23:59:59''))\<rparr>,
                 location = lineAt planningLine 8,
                 summary = Some (summaryOf planningLine),
                 description = lineAt planningLine 6,
                 id' = None\<rparr>"
    by blast
  then have "normalizeLine (jsHost 540) planningLine
       = Inr \<lparr>start = \<lparr>date = Undefined, dateTime = Str ''2024-01-10T05:00:00.000Z''\<rparr>,
              end' = \<lparr>date = Undefined, dateTime = Str ''2024-01-10T14:59:59.000Z''\<rparr>,
              location = Some ''Room A'',
              summary = Some (''['' @ kaigi @ ''] Planning''),
              description = Some ''notes'',
              id' = None\<rparr>"
    unfolding h r .
  with l show ?thesis by blast
qed

text \<open>
  C8. The events of a parsed CSV are the events of its lines from the second on, each
  line normalized on its own, in order: what an earlier line is, and whether its block
  threw, changes nothing for a later line, whose event is in the output.
\<close>

theorem parseLines_each_line:
  "fst (parseLines h q csv)
     = List.map_filter (\<lambda>line. case normalizeLine h line of Inr ev \<Rightarrow> Some ev | Inl e \<Rightarrow> None)
         (drop 1 csv)
   \<and> (\<forall>i ev. 0 < i \<and> i < length csv \<and> normalizeLine h (csv ! i) = Inr ev
         \<longrightarrow> ev \<in> set (fst (parseLines h q csv)))"
proof -
  let ?f = "\<lambda>line. case normalizeLine h line of Inr ev \<Rightarrow> Some ev | Inl e \<Rightarrow> None"
  have 1: "fst (parseLines h q csv) = List.map_filter ?f (drop 1 csv)"
    by (simp add: parseLines_def forEachLine_fst)
  have "ev \<in> set (List.map_filter ?f (drop 1 csv))"
    if "0 < i" "i < length csv" "normalizeLine h (csv ! i) = Inr ev" for i ev
  proof -
    from that(1,2) have "drop 1 csv ! (i - 1) = csv ! i" "i - 1 < length (drop 1 csv)"
      by simp_all
    then have "csv ! i \<in> set (drop 1 csv)"
      by (metis nth_mem)
    with that(3) show ?thesis
      by (force simp: List.map_filter_def)
  qed
  then have "\<forall>i ev. 0 < i \<and> i < length csv \<and> normalizeLine h (csv ! i) = Inr ev
         \<longrightarrow> ev \<in> set (List.map_filter ?f (drop 1 csv))"
    by blast
  with 1 show ?thesis by (simp only: simp_thms)
qed

theorem parseLines_each_line_witness:
  "0 < (2::nat) \<and> 2 < length [headerLine, garbageLine, offsiteLine]
   \<and> normalizeLine (jsHost 540) ([headerLine, garbageLine, offsiteLine] ! 2)
       = Inr \<lparr>start = \<lparr>date = Str ''2024-01-10'', dateTime = Undefined\<rparr>,
              end' = \<lparr>date = Str ''2024-01-11'', dateTime = Undefined\<rparr>,
              location = Some ''HQ'', summary = Some ''Offsite'', description = Some [],
              id' = None\<rparr>
   \<and> \<lparr>start = \<lparr>date = Str ''2024-01-10'', dateTime = Undefined\<rparr>,
       end' = \<lparr>date = Str ''2024-01-11'', dateTime = Undefined\<rparr>,
       location = Some ''HQ'', summary = Some ''Offsite'', description = Some [],
       id' = None\<rparr>
       \<in> set (fst (parseLines (jsHost 540) False [headerLine, garbageLine, offsiteLine]))
   \<and> length (fst (parseLines (jsHost 540) False [headerLine, garbageLine, offsiteLine])) = 2"
proof -
  let ?csv = "[headerLine, garbageLine, offsiteLine]"
  let ?ev = "\<lparr>start = \<lparr>date = Str ''2024-01-10'', dateTime = Undefined\<rparr>,
              end' = \<lparr>date = Str ''2024-01-11'', dateTime = Undefined\<rparr>,
              location = Some ''HQ'', summary = Some ''Offsite'', description = Some [],
              id' = None\<rparr>"
  have n: "normalizeLine (jsHost 540) (?csv ! 2) = Inr ?ev"
    by (simp add: normalizeLine_offsite)
  have i: "0 < (2::nat)" "2 < length ?csv"
    by simp_all
  from parseLines_each_line[of "jsHost 540" False ?csv, THEN conjunct2, rule_format, of 2 ?ev] i n
  have 1: "?ev \<in> set (fst (parseLines (jsHost 540) False ?csv))"
    by blast
  from parseLines_each_line[of "jsHost 540" False ?csv, THEN conjunct1]
  have 2: "length (fst (parseLines (jsHost 540) False ?csv)) = 2"
    by (simp add: List.map_filter_simps normalizeLine_offsite normalizeLine_garbage)
  from i n 1 2 show ?thesis by blast
qed



text \<open>
  C10, as the claim states it: with different dates, a start time and no end time, the
  event's end is read from the end date and the empty time. It fails on a reversed line:
  the pairs are exchanged, and the end is read from the line's start date and start time;
  what is read from the end date and the empty time is the event's start.
\<close>

theorem end_of_reversed_line_counterexample:
  "lineAt reversedLine 0 \<noteq> lineAt reversedLine 2
   \<and> lineAt reversedLine 1 = Some ''14:00'' \<and> lineAt reversedLine 3 = Some []
   \<and> normalizeLine (jsHost 540) reversedLine
       = Inr \<lparr>start = \<lparr>date = Undefined, dateTime = Str ''2024-01-09T15:00:00.000Z''\<rparr>,
              end' = \<lparr>date = Undefined, dateTime = Str ''2024-01-12T05:00:00.000Z''\<rparr>,
              location = Some [], summary = Some ''Visit'', description = Some [],
              id' = None\<rparr>
   \<and> toISOString (jsHost 540) (moment (jsHost 540) (toStr (lineAt reversedLine 2) @ '' '' @ []))
       = Str ''2024-01-09T15:00:00.000Z''
   \<and> toISOString (jsHost 540)
         (moment (jsHost 540) (toStr (lineAt reversedLine 0) @ '' '' @ ''14:00''))
       = Str ''2024-01-12T05:00:00.000Z''"
  by (simp add: normalizeLine_reversed)
     (simp add: example_lines example_host)

text \<open>
  C10, amended. On a line with two different dates, a start time that is not empty and an
  empty end time, \<^verbatim>\<open>23:59:59\<close> is not put in and the event is timed. When the block does
  not take the line for reversed (the test of line 178 is false), the start is read from
  the start date and the start time and the end from the end date and the empty time;
  when it does, the pairs are exchanged: the start is read from the end date and the
  empty time, and the end from the start date and the start time.
\<close>

theorem no_default_across_days:
  assumes "lineAt line 0 = Some sd" and "lineAt line 2 = Some ed" and "sd \<noteq> ed"
    and "lineAt line 1 = Some st" and "st \<noteq> []" and "lineAt line 3 = Some []"
  shows "normalizeLine h line
           = Inr \<lparr>start = \<lparr>date = Undefined,
                           dateTime = toISOString h
                             (moment h (if jsGt (lineAt line 0) (lineAt line 2) then ed @ '' ''
                                        else sd @ '' '' @ st))\<rparr>,
                  end' = \<lparr>date = Undefined,
                          dateTime = toISOString h
                            (moment h (if jsGt (lineAt line 0) (lineAt line 2) then sd @ '' '' @ st
                                       else ed @ '' ''))\<rparr>,
                  location = lineAt line 8,
                  summary = Some (summaryOf line),
                  description = lineAt line 6,
                  id' = None\<rparr>"
  unfolding normalizeLine_def assms(1,2,4,6) using assms(3,5) by auto

theorem no_default_across_days_witness:
  "lineAt reversedLine 0 = Some ''2024-01-12'' \<and> lineAt reversedLine 2 = Some ''2024-01-10''
   \<and> ''2024-01-12'' \<noteq> ''2024-01-10''
   \<and> lineAt reversedLine 1 = Some ''14:00'' \<and> ''14:00'' \<noteq> [] \<and> lineAt reversedLine 3 = Some []
   \<and> jsGt (lineAt reversedLine 0) (lineAt reversedLine 2)
   \<and> normalizeLine (jsHost 540) reversedLine
       = Inr \<lparr>start = \<lparr>date = Undefined,
                       dateTime = toISOString (jsHost 540) (moment (jsHost 540) ''2024-01-10 '')\<rparr>,
              end' = \<lparr>date = Undefined,
                      dateTime = toISOString (jsHost 540)
                                   (moment (jsHost 540) ''2024-01-12 14:00'')\<rparr>,
              location = Some [], summary = Some ''Visit'', description = Some [],
              id' = None\<rparr>"
proof -
  have l: "lineAt reversedLine 0 = Some ''2024-01-12''" "lineAt reversedLine 2 = Some ''2024-01-10''"
    "''2024-01-12'' \<noteq> ''2024-01-10''"
    "lineAt reversedLine 1 = Some ''14:00''" "''14:00'' \<noteq> []" "lineAt reversedLine 3 = Some []"
    by (simp_all add: example_lines)
  have r: "lineAt reversedLine 8 = Some []" "summaryOf reversedLine = ''Visit''"
    "lineAt reversedLine 6 = Some []"
    by (simp_all add: example_lines)
  have g: "jsGt (lineAt reversedLine 0) (lineAt reversedLine 2)"
    by (simp add: example_lines)
  from no_default_across_days[OF l, of "jsHost 540"] r l g show ?thesis
    by simp
qed

end
